theory Spec2Isabelle
  imports Complex_Main "HOL-Library.Monad_Syntax"
begin

section \<open>Elementwise functions of \<^verbatim>\<open>mingru/functional.py\<close>\<close>

text \<open>
  Tensor elements are modelled as real numbers: every statement below is about exact
  real arithmetic, not about the rounding of a floating-point format.

  \<^verbatim>\<open>torch.sigmoid\<close> and \<^verbatim>\<open>F.softplus\<close> are library functions. \<open>softplus\<close> is the
  mathematical function \<open>ln (1 + exp x)\<close>; the library's switch to the identity above
  its threshold of 20 is a rounding device and is not part of the model.
\<close>

definition sigmoid :: "real \<Rightarrow> real" where
  "sigmoid x = 1 / (1 + exp (- x))"

definition softplus :: "real \<Rightarrow> real" where
  "softplus x = ln (1 + exp x)"

text \<open>
  \<^verbatim>\<open>
  def g(x):
      out = torch.empty_like(x)
      mask = x >= 0
      out[mask] = x[mask] + 0.5
      out[~mask] = torch.sigmoid(x[~mask])
      return out
  \<close>
  The masks select, element by element, which of the two formulas fills the output:
  \<open>g\<close> is the function applied to one element.
\<close>

definition g :: "real \<Rightarrow> real" where
  "g x = (if x \<ge> 0 then x + 0.5 else sigmoid x)"

text \<open>
  \<^verbatim>\<open>
  def log_g(x):
      out = torch.empty_like(x)
      mask = x >= 0
      out[mask] = (x[mask] + 0.5).log()
      out[~mask] = -F.softplus(-x[~mask])
      return out
  \<close>
\<close>

definition log_g :: "real \<Rightarrow> real" where
  "log_g x = (if x \<ge> 0 then ln (x + 0.5) else - softplus (- x))"


section \<open>Tensors and the library operations the code calls\<close>

text \<open>
  A tensor is a nested list, outermost axis first: a tensor of shape \<open>(B, S, C)\<close> is a
  list of \<open>B\<close> batch entries, each a list of \<open>S\<close> time steps, each a list of \<open>C\<close>
  channel values. A call that raises in the library (mismatched shapes, too few values
  to unpack) returns \<open>None\<close>. Two limits of the representation: a nested list cannot
  carry the extents of the axes inside an empty axis, and broadcasting of operands of
  different shapes is not modelled (such operands are reported as \<open>None\<close>).
\<close>

type_synonym vec = "real list"
type_synonym matrix = "real list list"
type_synonym tensor3 = "real list list list"

definition shaped2 :: "nat \<Rightarrow> nat \<Rightarrow> matrix \<Rightarrow> bool" where
  "shaped2 R C w = (length w = R \<and> (\<forall>r\<in>set w. length r = C))"

definition shaped3 :: "nat \<Rightarrow> nat \<Rightarrow> nat \<Rightarrow> tensor3 \<Rightarrow> bool" where
  "shaped3 B S C t = (length t = B \<and> (\<forall>m\<in>set t. shaped2 S C m))"

definition bias_ok :: "nat \<Rightarrow> vec option \<Rightarrow> bool" where
  "bias_ok n b = (case b of None \<Rightarrow> True | Some bv \<Rightarrow> length bv = n)"

definition map3 :: "(real \<Rightarrow> real) \<Rightarrow> tensor3 \<Rightarrow> tensor3" where
  "map3 f t = map (map (map f)) t"

definition same_shape3 :: "tensor3 \<Rightarrow> tensor3 \<Rightarrow> bool" where
  "same_shape3 a b = list_all2 (list_all2 (\<lambda>u v. length u = length v)) a b"

definition zip_with3 :: "(real \<Rightarrow> real \<Rightarrow> real) \<Rightarrow> tensor3 \<Rightarrow> tensor3 \<Rightarrow> tensor3 option" where
  "zip_with3 f a b =
     (if same_shape3 a b then Some (map2 (map2 (map2 f)) a b) else None)"

definition add3 :: "tensor3 \<Rightarrow> tensor3 \<Rightarrow> tensor3 option" where
  "add3 = zip_with3 (+)"

definition mul3 :: "tensor3 \<Rightarrow> tensor3 \<Rightarrow> tensor3 option" where
  "mul3 = zip_with3 (*)"

definition dot :: "vec \<Rightarrow> vec \<Rightarrow> real" where
  "dot u v = sum_list (map2 (*) u v)"

text \<open>
  \<^verbatim>\<open>F.linear(x, weight, bias)\<close>: every row \<open>r\<close> of the last axis becomes
  \<open>weight r + bias\<close>, with \<open>weight\<close> of shape \<open>(out, in)\<close>.
\<close>

definition linear_row :: "vec \<Rightarrow> matrix \<Rightarrow> vec option \<Rightarrow> vec" where
  "linear_row r w b =
     (case b of None \<Rightarrow> map (dot r) w | Some bv \<Rightarrow> map2 (+) (map (dot r) w) bv)"

definition F_linear :: "tensor3 \<Rightarrow> matrix \<Rightarrow> vec option \<Rightarrow> tensor3 option" where
  "F_linear x w b =
     (if (\<forall>m\<in>set x. \<forall>r\<in>set m. \<forall>wr\<in>set w. length r = length wr) \<and> bias_ok (length w) b
      then Some (map (map (\<lambda>r. linear_row r w b)) x) else None)"

text \<open>
  \<^verbatim>\<open>gate, hidden = t.chunk(2, dim=-1)\<close>: the last axis, of extent \<open>n\<close>, is cut into
  pieces of \<open>\<lceil>n / 2\<rceil>\<close> entries. An axis of extent 1 gives one piece only, and the
  unpacking into two names raises.
\<close>

definition chunk_dim2 :: "'a list list list \<Rightarrow> ('a list list list \<times> 'a list list list) option" where
  "chunk_dim2 t =
     (if \<exists>m\<in>set t. \<exists>r\<in>set m. length r = 1 then None
      else Some (map (map (\<lambda>r. take ((length r + 1) div 2) r)) t,
                 map (map (\<lambda>r. drop ((length r + 1) div 2) r)) t))"

text \<open>\<^verbatim>\<open>torch.cat((a, b), dim=1)\<close>: the two tensors must agree on every other axis.\<close>

definition cat1 :: "tensor3 \<Rightarrow> tensor3 \<Rightarrow> tensor3 option" where
  "cat1 a b =
     (if list_all2 (\<lambda>p q. \<forall>u\<in>set p. \<forall>v\<in>set q. length u = length v) a b
      then Some (map2 (@) a b) else None)"

text \<open>
  \<^verbatim>\<open>x.shape[1]\<close> and \<^verbatim>\<open>x.shape[2]\<close>, read off the first entries; inside an empty axis
  they read as 0.
\<close>

definition size1 :: "'a list list \<Rightarrow> nat" where
  "size1 x = (case x of [] \<Rightarrow> 0 | m # _ \<Rightarrow> length m)"

definition size2 :: "'a list list list \<Rightarrow> nat" where
  "size2 x = (case x of [] \<Rightarrow> 0 | m # _ \<Rightarrow> size1 m)"


section \<open>The log-space scan\<close>

text \<open>
  Modelled from the spec: \<^verbatim>\<open>parallel_scan_log\<close> of \<^verbatim>\<open>mingru/scan.py\<close>, which
  \<^verbatim>\<open>functional.py\<close> imports and which is not among the sources. The definitions follow
  the six steps of the specification's ParallelScan, applied along the time axis
  independently at every batch entry and channel.
\<close>

definition cumsum :: "real list \<Rightarrow> real list" where
  "cumsum xs = map (\<lambda>t. sum_list (take (Suc t) xs)) [0..<length xs]"

definition logsumexp :: "real list \<Rightarrow> real" where
  "logsumexp ds = (let m = Max (set ds) in m + ln (sum_list (map (\<lambda>d. exp (d - m)) ds)))"

definition logcumsumexp :: "real list \<Rightarrow> real list" where
  "logcumsumexp ds = map (\<lambda>t. logsumexp (take (Suc t) ds)) [0..<length ds]"

definition scan_series :: "real list \<Rightarrow> real list \<Rightarrow> real list" where
  "scan_series a b =
     (let A = 0 # a;
          Astar = cumsum A;
          D = map2 (-) b Astar;
          C = logcumsumexp D;
          log_h = map2 (+) Astar C
      in map exp log_h)"

definition column :: "nat \<Rightarrow> matrix \<Rightarrow> real list" where
  "column c m = map (\<lambda>f. f ! c) m"

definition scan_batch :: "matrix \<Rightarrow> matrix \<Rightarrow> matrix" where
  "scan_batch a b =
     (let series = map (\<lambda>c. scan_series (column c a) (column c b)) [0..<length (hd b)]
      in map (\<lambda>t. map (\<lambda>s. s ! t) series) [0..<length b])"

definition parallel_scan_log :: "tensor3 \<Rightarrow> tensor3 \<Rightarrow> tensor3 option" where
  "parallel_scan_log log_coeffs log_values =
     (if list_all2 (\<lambda>a b. length b = Suc (length a)
                      \<and> (\<forall>u\<in>set (a @ b). length u = length (hd b))) log_coeffs log_values
      then Some (map2 scan_batch log_coeffs log_values) else None)"


section \<open>The recurrence and its dispatcher\<close>

text \<open>
  \<^verbatim>\<open>
  def mingru_sequential(x, h, weight, bias=None):
      gate, hidden = F.linear(x, weight, bias).chunk(2, dim=-1)
      z = torch.sigmoid(gate)
      h_tilde = g(hidden)
      h_t = (1 - z) * h + z * h_tilde
      return h_t
  \<close>
\<close>

definition mingru_sequential ::
  "tensor3 \<Rightarrow> tensor3 \<Rightarrow> matrix \<Rightarrow> vec option \<Rightarrow> tensor3 option" where
  "mingru_sequential x h weight bias = do {
     y \<leftarrow> F_linear x weight bias;
     (gate, hidden) \<leftarrow> chunk_dim2 y;
     let z = map3 sigmoid gate;
     let h_tilde = map3 g hidden;
     keep \<leftarrow> mul3 (map3 (\<lambda>v. 1 - v) z) h;
     new \<leftarrow> mul3 z h_tilde;
     add3 keep new
   }"

text \<open>
  \<^verbatim>\<open>
  def mingru_parallel(x, h, weight, bias=None):
      gate, hidden = F.linear(x, weight, bias).chunk(2, dim=-1)
      log_z = -F.softplus(-gate)  # log(z)
      log_coeffs = -F.softplus(gate)  # log(1-z)
      log_h_0 = h.log()
      log_tilde_h = log_g(hidden)
      h = parallel_scan_log(
          log_coeffs,
          torch.cat((log_h_0, log_z + log_tilde_h), dim=1),
      )
      return h[:, 1:]  # tail
  \<close>
  \<^verbatim>\<open>h.log()\<close> is \<open>ln\<close>, which describes the library only on positive elements (the
  library returns \<open>-inf\<close> at zero and \<open>nan\<close> below, which are not real numbers):
  statements about the values of this function assume a positive \<open>h\<close>.
\<close>

definition mingru_parallel ::
  "tensor3 \<Rightarrow> tensor3 \<Rightarrow> matrix \<Rightarrow> vec option \<Rightarrow> tensor3 option" where
  "mingru_parallel x h weight bias = do {
     y \<leftarrow> F_linear x weight bias;
     (gate, hidden) \<leftarrow> chunk_dim2 y;
     let log_z = map3 (\<lambda>v. - softplus (- v)) gate;
     let log_coeffs = map3 (\<lambda>v. - softplus v) gate;
     let log_h_0 = map3 ln h;
     let log_tilde_h = map3 log_g hidden;
     log_new \<leftarrow> add3 log_z log_tilde_h;
     log_values \<leftarrow> cat1 log_h_0 log_new;
     h' \<leftarrow> parallel_scan_log log_coeffs log_values;
     Some (map (drop 1) h')
   }"

text \<open>
  \<^verbatim>\<open>
  def mingru(x, h, weight, bias=None):
      S = x.shape[1]
      if S == 1:
          return mingru_sequential(x, h, weight, bias)
      else:
          return mingru_parallel(x, h, weight, bias)
  \<close>
\<close>

definition mingru :: "tensor3 \<Rightarrow> tensor3 \<Rightarrow> matrix \<Rightarrow> vec option \<Rightarrow> tensor3 option" where
  "mingru x h weight bias =
     (let S = size1 x
      in if S = 1 then mingru_sequential x h weight bias
         else mingru_parallel x h weight bias)"


section \<open>The spatial variant\<close>

text \<open>
  Tensors of four axes \<open>(N, C, H, W)\<close> and of five axes \<open>(B, S, C, H, W)\<close>. The spatial
  functions read the whole shape of their input (\<^verbatim>\<open>B, S, input_dims, H, W = x.shape\<close>)
  and hand tensors with an empty axis to the library, whose checks depend on the
  extents inside that axis. Such a tensor is therefore modelled as the library has it:
  its shape together with its entries, the entries being a nested list of that shape.
\<close>

type_synonym tensor4 = "real list list list list"
type_synonym tensor5 = "real list list list list list"

record ('s, 'a) torch_tensor =
  shape :: 's
  entries :: 'a

type_synonym maps4 = "(nat \<times> nat \<times> nat \<times> nat, tensor4) torch_tensor"
type_synonym maps5 = "(nat \<times> nat \<times> nat \<times> nat \<times> nat, tensor5) torch_tensor"

definition map4 :: "(real \<Rightarrow> real) \<Rightarrow> tensor4 \<Rightarrow> tensor4" where
  "map4 f t = map (map3 f) t"

definition map5 :: "(real \<Rightarrow> real) \<Rightarrow> tensor5 \<Rightarrow> tensor5" where
  "map5 f t = map (map4 f) t"

text \<open>
  An elementwise function keeps the shape. An elementwise operation on two tensors of
  one shape keeps it too; on tensors of two shapes the library broadcasts or raises,
  which is not modelled (\<open>None\<close>).
\<close>

definition on_entries :: "('a \<Rightarrow> 'a) \<Rightarrow> ('s, 'a) torch_tensor \<Rightarrow> ('s, 'a) torch_tensor" where
  "on_entries f t = \<lparr>shape = shape t, entries = f (entries t)\<rparr>"

definition zip_entries ::
  "('a \<Rightarrow> 'a \<Rightarrow> 'a) \<Rightarrow> ('s, 'a) torch_tensor \<Rightarrow> ('s, 'a) torch_tensor
   \<Rightarrow> ('s, 'a) torch_tensor option" where
  "zip_entries f a b =
     (if shape a = shape b then Some \<lparr>shape = shape a, entries = f (entries a) (entries b)\<rparr>
      else None)"

definition add4 :: "maps4 \<Rightarrow> maps4 \<Rightarrow> maps4 option" where
  "add4 = zip_entries (map2 (map2 (map2 (map2 (+)))))"

definition mul4 :: "maps4 \<Rightarrow> maps4 \<Rightarrow> maps4 option" where
  "mul4 = zip_entries (map2 (map2 (map2 (map2 (*)))))"

definition add5 :: "maps5 \<Rightarrow> maps5 \<Rightarrow> maps5 option" where
  "add5 = zip_entries (map2 (map2 (map2 (map2 (map2 (+))))))"

text \<open>\<^verbatim>\<open>x.shape[1]\<close> and \<^verbatim>\<open>h.shape[2]\<close> of a tensor of five axes.\<close>

definition shape1 :: "maps5 \<Rightarrow> nat" where
  "shape1 t = (case shape t of (B, S, C, H, W) \<Rightarrow> S)"

definition shape2 :: "maps5 \<Rightarrow> nat" where
  "shape2 t = (case shape t of (B, S, C, H, W) \<Rightarrow> C)"

text \<open>
  \<^verbatim>\<open>t.squeeze(1)\<close> removes the second axis when its extent is 1 and leaves the tensor
  as it is otherwise. The code passes the result on as a tensor of four axes; a tensor
  that keeps its five axes is rejected there (by \<^verbatim>\<open>F.conv2d\<close>) or is an operand of
  another shape, which is the \<open>None\<close> of the model. \<^verbatim>\<open>t.unsqueeze(1)\<close> inserts an
  axis of extent 1.
\<close>

definition squeeze_dim1 :: "maps5 \<Rightarrow> maps4 option" where
  "squeeze_dim1 t =
     (case shape t of (B, S, C, H, W) \<Rightarrow>
        if S = 1 then Some \<lparr>shape = (B, C, H, W), entries = map hd (entries t)\<rparr> else None)"

definition unsqueeze_dim1 :: "maps4 \<Rightarrow> maps5" where
  "unsqueeze_dim1 t =
     (case shape t of (B, C, H, W) \<Rightarrow>
        \<lparr>shape = (B, 1, C, H, W), entries = map (\<lambda>e. [e]) (entries t)\<rparr>)"

text \<open>
  \<^verbatim>\<open>gate, hidden = t.chunk(2, dim=d)\<close> on the channel axis of a tensor of four axes
  (\<^verbatim>\<open>dim=1\<close>) and of five axes (\<^verbatim>\<open>dim=2\<close>): pieces of \<open>\<lceil>C / 2\<rceil>\<close> channels, and one
  piece only, so an error at the unpacking, when \<open>C = 1\<close>.
\<close>

definition chunk_channels4 :: "maps4 \<Rightarrow> (maps4 \<times> maps4) option" where
  "chunk_channels4 t =
     (case shape t of (N, C, H, W) \<Rightarrow>
        if C = 1 then None
        else let k = (C + 1) div 2
             in Some (\<lparr>shape = (N, k, H, W), entries = map (take k) (entries t)\<rparr>,
                      \<lparr>shape = (N, C - k, H, W), entries = map (drop k) (entries t)\<rparr>))"

definition chunk_channels5 :: "maps5 \<Rightarrow> (maps5 \<times> maps5) option" where
  "chunk_channels5 t =
     (case shape t of (B, S, C, H, W) \<Rightarrow>
        if C = 1 then None
        else let k = (C + 1) div 2
             in Some (\<lparr>shape = (B, S, k, H, W), entries = map (map (take k)) (entries t)\<rparr>,
                      \<lparr>shape = (B, S, C - k, H, W), entries = map (map (drop k)) (entries t)\<rparr>))"

text \<open>
  \<^verbatim>\<open>F.conv2d(input, weight, bias, stride=1, padding="same")\<close>, a cross-correlation:
  the input \<open>(N, C, H, W)\<close> is padded with zeros, \<open>(k - 1) div 2\<close> rows or columns before
  and the rest of the \<open>k - 1\<close> after, and the kernel \<open>weight\<close> of shape \<open>(O, C, k1, k2)\<close>
  slides over it with stride 1, so that the output is \<open>(N, O, H, W)\<close>.
  \<open>padded pt pl p i j\<close> is the entry \<open>(i, j)\<close> of plane \<open>p\<close> padded by \<open>pt\<close> rows above and
  \<open>pl\<close> columns to the left.

  The library raises when the weight has no output channel, when the channels of the
  input are not those of the kernels, when the bias does not have one entry for each
  output channel, and when the padded input is smaller than the kernel, which with this
  padding (the input grows by \<open>k - 1\<close>) is the case of a feature map with no row or no
  column. An empty batch is accepted. The weight is a nested list \<open>(O, C, k1, k2)\<close>; its
  kernels have at least one row and one column.
\<close>

definition padded :: "nat \<Rightarrow> nat \<Rightarrow> matrix \<Rightarrow> nat \<Rightarrow> nat \<Rightarrow> real" where
  "padded pt pl p i j =
     (if pt \<le> i \<and> i - pt < length p \<and> pl \<le> j \<and> j - pl < length (p ! (i - pt))
      then p ! (i - pt) ! (j - pl) else 0)"

definition conv_at :: "matrix list \<Rightarrow> matrix list \<Rightarrow> nat \<Rightarrow> nat \<Rightarrow> real" where
  "conv_at planes ker y x =
     (\<Sum>(p, k)\<leftarrow>zip planes ker.
        \<Sum>u\<leftarrow>[0..<length k]. \<Sum>v\<leftarrow>[0..<length (k ! u)].
          k ! u ! v * padded ((length k - 1) div 2) ((length (k ! u) - 1) div 2) p (y + u) (x + v))"

definition bias_at :: "vec option \<Rightarrow> nat \<Rightarrow> real" where
  "bias_at b j = (case b of None \<Rightarrow> 0 | Some bv \<Rightarrow> bv ! j)"

definition F_conv2d_same :: "maps4 \<Rightarrow> tensor4 \<Rightarrow> vec option \<Rightarrow> maps4 option" where
  "F_conv2d_same inp weight bias =
     (case shape inp of (N, C, H, W) \<Rightarrow>
        if weight \<noteq> []
           \<and> (\<forall>ker\<in>set weight. length ker = C)
           \<and> (\<forall>ker\<in>set weight. \<forall>k\<in>set ker. k \<noteq> [] \<and> (\<forall>r\<in>set k. r \<noteq> []))
           \<and> bias_ok (length weight) bias
           \<and> 0 < H \<and> 0 < W
        then Some \<lparr>shape = (N, length weight, H, W),
                   entries = map (\<lambda>planes.
                     map (\<lambda>j. map (\<lambda>y. map (\<lambda>x. conv_at planes (weight ! j) y x + bias_at bias j)
                                         [0..<W]) [0..<H])
                       [0..<length weight]) (entries inp)\<rparr>
        else None)"

text \<open>
  \<^verbatim>\<open>
  def conv_mingru_sequential(x, h, weight, bias=None):
      gate, hidden = F.conv2d(
          x.squeeze(1), weight, bias, stride=1, padding="same",
      ).chunk(2, dim=1)
      z = torch.sigmoid(gate)
      h_tilde = g(hidden)
      h_t = (1 - z) * h.squeeze(1) + z * h_tilde
      return h_t.unsqueeze(1)
  \<close>
\<close>

definition conv_mingru_sequential ::
  "maps5 \<Rightarrow> maps5 \<Rightarrow> tensor4 \<Rightarrow> vec option \<Rightarrow> maps5 option" where
  "conv_mingru_sequential x h weight bias = do {
     x4 \<leftarrow> squeeze_dim1 x;
     y \<leftarrow> F_conv2d_same x4 weight bias;
     (gate, hidden) \<leftarrow> chunk_channels4 y;
     let z = on_entries (map4 sigmoid) gate;
     let h_tilde = on_entries (map4 g) hidden;
     h4 \<leftarrow> squeeze_dim1 h;
     keep \<leftarrow> mul4 (on_entries (map4 (\<lambda>v. 1 - v)) z) h4;
     new \<leftarrow> mul4 z h_tilde;
     h_t \<leftarrow> add4 keep new;
     Some (unsqueeze_dim1 h_t)
   }"

text \<open>
  \<^verbatim>\<open>x.view(B * S, input_dims, H, W)\<close> joins the first two axes. \<open>view5 B S C H W\<close> is
  \<^verbatim>\<open>.view(B, S, C, H, W)\<close> of the result \<open>(B * S, O, H, W)\<close> of the convolution, which
  raises when the numbers of elements differ; the entries are regrouped into \<open>B\<close> runs of
  \<open>S\<close> steps. \<^verbatim>\<open>torch.cat\<close> along the time axis needs both tensors to agree on every
  other axis. \<^verbatim>\<open>h[:, 1:]\<close> drops the first step.
\<close>

definition view4 :: "nat \<Rightarrow> nat \<Rightarrow> nat \<Rightarrow> nat \<Rightarrow> maps5 \<Rightarrow> maps4" where
  "view4 N C H W t = \<lparr>shape = (N, C, H, W), entries = concat (entries t)\<rparr>"

definition view5 :: "nat \<Rightarrow> nat \<Rightarrow> nat \<Rightarrow> nat \<Rightarrow> nat \<Rightarrow> maps4 \<Rightarrow> maps5 option" where
  "view5 B S C H W y =
     (case shape y of (N, Cy, Hy, Wy) \<Rightarrow>
        if N * Cy * Hy * Wy = B * S * C * H * W
        then Some \<lparr>shape = (B, S, C, H, W),
                   entries = map (\<lambda>i. take S (drop (i * S) (entries y))) [0..<B]\<rparr>
        else None)"

definition cat1_spatial :: "maps5 \<Rightarrow> maps5 \<Rightarrow> maps5 option" where
  "cat1_spatial a b =
     (case (shape a, shape b) of ((B, S, C, H, W), (B', S', C', H', W')) \<Rightarrow>
        if B = B' \<and> C = C' \<and> H = H' \<and> W = W'
        then Some \<lparr>shape = (B, S + S', C, H, W), entries = map2 (@) (entries a) (entries b)\<rparr>
        else None)"

definition tail1 :: "maps5 \<Rightarrow> maps5" where
  "tail1 t =
     (case shape t of (B, S, C, H, W) \<Rightarrow>
        \<lparr>shape = (B, S - 1, C, H, W), entries = map (drop 1) (entries t)\<rparr>)"

text \<open>
  Modelled from the spec: \<^verbatim>\<open>parallel_scan_log\<close> on tensors of five axes, log-coefficients
  \<open>(B, S, C, H, W)\<close> and log-values \<open>(B, S + 1, C, H, W)\<close>. The specification runs the same
  scan independently at every channel and spatial position: the time steps
  \<open>(C, H, W)\<close> are flattened, scanned, and given their shape back.
\<close>

definition flatten_step :: "real list list list \<Rightarrow> real list" where
  "flatten_step f = concat (concat f)"

definition unflatten_step :: "nat \<Rightarrow> nat \<Rightarrow> nat \<Rightarrow> real list \<Rightarrow> real list list list" where
  "unflatten_step C H W v =
     map (\<lambda>c. map (\<lambda>y. map (\<lambda>x. v ! ((c * H + y) * W + x)) [0..<W]) [0..<H]) [0..<C]"

definition parallel_scan_log_spatial :: "maps5 \<Rightarrow> maps5 \<Rightarrow> maps5 option" where
  "parallel_scan_log_spatial log_coeffs log_values =
     (case (shape log_coeffs, shape log_values) of ((B, S, C, H, W), (B', S', C', H', W')) \<Rightarrow>
        if B = B' \<and> S' = Suc S \<and> C = C' \<and> H = H' \<and> W = W'
        then do {
          r \<leftarrow> parallel_scan_log (map (map flatten_step) (entries log_coeffs))
                 (map (map flatten_step) (entries log_values));
          Some \<lparr>shape = (B, S', C, H, W), entries = map (map (unflatten_step C H W)) r\<rparr>
        } else None)"

text \<open>
  \<^verbatim>\<open>
  def conv_mingru_parallel(x, h, weight, bias=None):
      B, S, input_dims, H, W = x.shape
      hidden_dims = h.shape[2]
      gate, hidden = (
          F.conv2d(
              x.view(B * S, input_dims, H, W), weight, bias, stride=1, padding="same",
          )
          .view(B, S, hidden_dims * 2, H, W)
          .chunk(2, dim=2)
      )
      log_z = -F.softplus(-gate)  # log(z)
      log_coeffs = -F.softplus(gate)  # log(1-z)
      log_h_0 = h.log()
      log_tilde_h = log_g(hidden)
      h = parallel_scan_log(
          log_coeffs,
          torch.cat((log_h_0, log_z + log_tilde_h), dim=1),
      )
      return h[:, 1:]  # tail
  \<close>
\<close>

definition conv_mingru_parallel ::
  "maps5 \<Rightarrow> maps5 \<Rightarrow> tensor4 \<Rightarrow> vec option \<Rightarrow> maps5 option" where
  "conv_mingru_parallel x h weight bias =
     (case shape x of (B, S, input_dims, H, W) \<Rightarrow> do {
        let hidden_dims = shape2 h;
        y \<leftarrow> F_conv2d_same (view4 (B * S) input_dims H W x) weight bias;
        y5 \<leftarrow> view5 B S (hidden_dims * 2) H W y;
        (gate, hidden) \<leftarrow> chunk_channels5 y5;
        let log_z = on_entries (map5 (\<lambda>v. - softplus (- v))) gate;
        let log_coeffs = on_entries (map5 (\<lambda>v. - softplus v)) gate;
        let log_h_0 = on_entries (map5 ln) h;
        let log_tilde_h = on_entries (map5 log_g) hidden;
        log_new \<leftarrow> add5 log_z log_tilde_h;
        log_values \<leftarrow> cat1_spatial log_h_0 log_new;
        h' \<leftarrow> parallel_scan_log_spatial log_coeffs log_values;
        Some (tail1 h')
      })"

text \<open>
  \<^verbatim>\<open>
  def conv_mingru(x, h, weight, bias=None):
      S = x.shape[1]
      if S == 1:
          return conv_mingru_sequential(x, h, weight, bias)
      else:
          return conv_mingru_parallel(x, h, weight, bias)
  \<close>
\<close>

definition conv_mingru :: "maps5 \<Rightarrow> maps5 \<Rightarrow> tensor4 \<Rightarrow> vec option \<Rightarrow> maps5 option" where
  "conv_mingru x h weight bias =
     (let S = shape1 x
      in if S = 1 then conv_mingru_sequential x h weight bias
         else conv_mingru_parallel x h weight bias)"


section \<open>The module of \<^verbatim>\<open>mingru/modules.py\<close>\<close>

text \<open>
  The fields of \<^verbatim>\<open>MinGRU\<close> that \<^verbatim>\<open>forward\<close> reads. A gate-and-hidden layer is the weight
  and bias of its \<^verbatim>\<open>torch.nn.Linear\<close>; an align layer is a \<^verbatim>\<open>torch.nn.Linear\<close> or
  \<^verbatim>\<open>torch.nn.Identity\<close>.
\<close>

datatype align_layer = Align_Identity | Align_Linear matrix "vec option"

record MinGRU =
  layer_sizes :: "nat list"
  num_layers :: nat
  gate_hidden_layers :: "(matrix \<times> vec option) list"
  align_layers :: "align_layer list"
  dropout :: real
  residual :: bool

definition align_forward :: "align_layer \<Rightarrow> tensor3 \<Rightarrow> tensor3 option" where
  "align_forward al inp =
     (case al of Align_Identity \<Rightarrow> Some inp | Align_Linear w b \<Rightarrow> F_linear inp w b)"

text \<open>
  \<^verbatim>\<open>
  def init_hidden_state(self, x):
      return [
          mF.g(x.new_zeros(x.shape[0], 1, hidden_size))
          for hidden_size in self.layer_sizes[1:]
      ]
  \<close>
\<close>

definition new_zeros :: "nat \<Rightarrow> nat \<Rightarrow> nat \<Rightarrow> tensor3" where
  "new_zeros B S C = replicate B (replicate S (replicate C 0))"

definition init_hidden_state :: "MinGRU \<Rightarrow> tensor3 \<Rightarrow> tensor3 list" where
  "init_hidden_state m x =
     map (\<lambda>hidden_size. map3 g (new_zeros (length x) 1 hidden_size)) (drop 1 (layer_sizes m))"

text \<open>
  \<^verbatim>\<open>
  def forward(self, x, h=None):
      assert (
          x.ndim == 3 and x.shape[2] == self.layer_sizes[0]
      ), "x should be (B,S,input_size)"
      if h is None:
          h = self.init_hidden_state(x)
      inp = x
      next_hidden = []
      for lidx, gh_layer in enumerate(self.gate_hidden_layers):
          h_prev = h[lidx]
          out = mF.mingru(inp, h_prev, gh_layer.weight, gh_layer.bias)
          next_hidden.append(out[:, -1:])
          if self.residual:
              al: ModuleInterface = self.align_layers[lidx]
              out = out + al.forward(inp)
          is_not_last = lidx < (self.num_layers - 1)
          if is_not_last and (self.dropout > 0):
              out = out * torch.bernoulli(torch.full_like(out, 1 - self.dropout))
          inp = out
      return out, next_hidden
  \<close>
  The loop is \<open>layers_loop\<close>, over the layers that remain, with the loop variables as
  arguments; \<open>out\<close> is \<open>None\<close> while the name is unbound, and returning it then raises.
  The random draw of \<^verbatim>\<open>torch.bernoulli\<close> is a parameter \<open>bern\<close>: the mask drawn at layer
  \<open>lidx\<close> for a tensor of probabilities. A failed assertion and an index out of range
  are \<open>None\<close>.
\<close>

fun layers_loop ::
  "MinGRU \<Rightarrow> (nat \<Rightarrow> tensor3 \<Rightarrow> tensor3) \<Rightarrow> tensor3 list \<Rightarrow> nat \<Rightarrow> (matrix \<times> vec option) list
   \<Rightarrow> tensor3 \<Rightarrow> tensor3 option \<Rightarrow> tensor3 list \<Rightarrow> (tensor3 \<times> tensor3 list) option" where
  "layers_loop m bern h lidx [] inp out next_hidden =
     (case out of None \<Rightarrow> None | Some out' \<Rightarrow> Some (out', next_hidden))"
| "layers_loop m bern h lidx ((weight, bias) # rest) inp out next_hidden =
     (if length h \<le> lidx then None
      else do {
        let h_prev = h ! lidx;
        out1 \<leftarrow> mingru inp h_prev weight bias;
        let next_hidden' = next_hidden @ [map (\<lambda>s. drop (length s - 1) s) out1];
        out2 \<leftarrow> (if residual m
                  then (if length (align_layers m) \<le> lidx then None
                        else do {
                          a \<leftarrow> align_forward (align_layers m ! lidx) inp;
                          add3 out1 a
                        })
                  else Some out1);
        let is_not_last = (int lidx < int (num_layers m) - 1);
        out3 \<leftarrow> (if is_not_last \<and> dropout m > 0
                  then mul3 out2 (bern lidx (map3 (\<lambda>_. 1 - dropout m) out2))
                  else Some out2);
        layers_loop m bern h (Suc lidx) rest out3 (Some out3) next_hidden'
      })"

definition forward ::
  "MinGRU \<Rightarrow> (nat \<Rightarrow> tensor3 \<Rightarrow> tensor3) \<Rightarrow> tensor3 \<Rightarrow> tensor3 list option
   \<Rightarrow> (tensor3 \<times> tensor3 list) option" where
  "forward m bern x h =
     (case layer_sizes m of
        [] \<Rightarrow> None
      | input_size # _ \<Rightarrow>
          if size2 x \<noteq> input_size then None
          else let h' = (case h of None \<Rightarrow> init_hidden_state m x | Some hs \<Rightarrow> hs)
               in layers_loop m bern h' 0 (gate_hidden_layers m) x None [])"


section \<open>The step-by-step reference\<close>

text \<open>
  The specification's ground truth for a whole sequence: the one-step update applied to
  the time slices \<^verbatim>\<open>x[:, t:t+1]\<close> for \<open>t = 0, \<dots>, S - 1\<close>, each step starting from the
  state the previous one returned, and the states joined along the time axis.
\<close>

definition time_slice :: "nat \<Rightarrow> tensor3 \<Rightarrow> tensor3" where
  "time_slice t x = map (\<lambda>m. take 1 (drop t m)) x"

fun rollout ::
  "tensor3 \<Rightarrow> matrix \<Rightarrow> vec option \<Rightarrow> tensor3 \<Rightarrow> nat \<Rightarrow> nat \<Rightarrow> tensor3 list option" where
  "rollout x weight bias h t 0 = Some []"
| "rollout x weight bias h t (Suc n) = do {
     h' \<leftarrow> mingru_sequential (time_slice t x) h weight bias;
     rest \<leftarrow> rollout x weight bias h' (Suc t) n;
     Some (h' # rest)
   }"

definition cat_states :: "nat \<Rightarrow> tensor3 list \<Rightarrow> tensor3" where
  "cat_states B hs = map (\<lambda>i. concat (map (\<lambda>h. h ! i) hs)) [0..<B]"

definition sequential_steps ::
  "tensor3 \<Rightarrow> tensor3 \<Rightarrow> matrix \<Rightarrow> vec option \<Rightarrow> tensor3 option" where
  "sequential_steps x h weight bias =
     map_option (cat_states (length x)) (rollout x weight bias h 0 (size1 x))"


section \<open>Notions used in the statements\<close>

text \<open>
  The gate and candidate logits that both evaluations compute from the input: the two
  halves of \<^verbatim>\<open>F.linear(x, weight, bias)\<close>, gate half first.
\<close>

definition gate_logits :: "tensor3 \<Rightarrow> matrix \<Rightarrow> vec option \<Rightarrow> tensor3" where
  "gate_logits x w b = map (map (\<lambda>r. take ((length w + 1) div 2) (linear_row r w b))) x"

definition candidate_logits :: "tensor3 \<Rightarrow> matrix \<Rightarrow> vec option \<Rightarrow> tensor3" where
  "candidate_logits x w b = map (map (\<lambda>r. drop ((length w + 1) div 2) (linear_row r w b))) x"

text \<open>
  The recurrence at batch entry \<open>i\<close> and channel \<open>c\<close>: \<open>gate_at \<dots> i c t\<close> is the
  gate coefficient \<open>z\<close> and \<open>candidate_at \<dots> i c t\<close> the candidate state of step \<open>t\<close>;
  \<open>trajectory z c h0 t\<close> is the state after \<open>t\<close> steps from \<open>h0\<close>.
\<close>

definition gate_at :: "tensor3 \<Rightarrow> matrix \<Rightarrow> vec option \<Rightarrow> nat \<Rightarrow> nat \<Rightarrow> nat \<Rightarrow> real" where
  "gate_at x w b i c t = sigmoid (gate_logits x w b ! i ! t ! c)"

definition candidate_at :: "tensor3 \<Rightarrow> matrix \<Rightarrow> vec option \<Rightarrow> nat \<Rightarrow> nat \<Rightarrow> nat \<Rightarrow> real" where
  "candidate_at x w b i c t = g (candidate_logits x w b ! i ! t ! c)"

fun trajectory :: "(nat \<Rightarrow> real) \<Rightarrow> (nat \<Rightarrow> real) \<Rightarrow> real \<Rightarrow> nat \<Rightarrow> real" where
  "trajectory z c h0 0 = h0"
| "trajectory z c h0 (Suc t) = (1 - z t) * trajectory z c h0 t + z t * c t"

definition positive3 :: "tensor3 \<Rightarrow> bool" where
  "positive3 t = (\<forall>m\<in>set t. \<forall>r\<in>set m. \<forall>v\<in>set r. 0 < v)"

definition bounded3 :: "real \<Rightarrow> tensor3 \<Rightarrow> bool" where
  "bounded3 M t = (\<forall>m\<in>set t. \<forall>r\<in>set m. \<forall>v\<in>set r. v \<le> M)"



text \<open>
  The entries of a tensor \<open>(B, S, C)\<close> as entries \<open>(B, S, C, 1, 1)\<close> with the same values
  (\<open>spatial\<close>, and \<open>pixel_maps\<close> with the shape), the channel values of entries
  \<open>(B, S, C, 1, 1)\<close> as a tensor \<open>(B, S, C)\<close> (\<open>channels\<close>), a list of rows as a sequence
  of one step each (\<open>unsqueeze1\<close>), and the linear
  weights that a convolution kernel applies to a feature map of one pixel: with the
  padding above, the pixel meets the kernel entry \<open>((k1 - 1) div 2, (k2 - 1) div 2)\<close>.
\<close>

definition spatial4 :: "matrix \<Rightarrow> tensor4" where
  "spatial4 t = map (map (\<lambda>v. [[v]])) t"

definition spatial :: "tensor3 \<Rightarrow> tensor5" where
  "spatial t = map (map (map (\<lambda>v. [[v]]))) t"

definition unsqueeze1 :: "'a list \<Rightarrow> 'a list list" where
  "unsqueeze1 t = map (\<lambda>e. [e]) t"

definition pixel_maps :: "nat \<Rightarrow> nat \<Rightarrow> nat \<Rightarrow> tensor3 \<Rightarrow> maps5" where
  "pixel_maps B S C t = \<lparr>shape = (B, S, C, 1, 1), entries = spatial t\<rparr>"

definition channels :: "tensor5 \<Rightarrow> tensor3" where
  "channels t = map (map (map (\<lambda>p. p ! 0 ! 0))) t"

definition centre_weights :: "tensor4 \<Rightarrow> matrix" where
  "centre_weights weight =
     map (map (\<lambda>k. k ! ((length k - 1) div 2) ! ((length (k ! ((length k - 1) div 2)) - 1) div 2)))
       weight"

definition shaped4 :: "nat \<Rightarrow> nat \<Rightarrow> nat \<Rightarrow> nat \<Rightarrow> tensor4 \<Rightarrow> bool" where
  "shaped4 N C H W t = (length t = N \<and> (\<forall>e\<in>set t. shaped3 C H W e))"

definition shaped5 :: "nat \<Rightarrow> nat \<Rightarrow> nat \<Rightarrow> nat \<Rightarrow> nat \<Rightarrow> tensor5 \<Rightarrow> bool" where
  "shaped5 B S C H W t = (length t = B \<and> (\<forall>e\<in>set t. shaped4 S C H W e))"

text \<open>
  The values the two evaluations return on inputs of the documented shapes, written
  without the shape checks.
\<close>

definition seq_out :: "tensor3 \<Rightarrow> tensor3 \<Rightarrow> matrix \<Rightarrow> vec option \<Rightarrow> tensor3" where
  "seq_out x h w b =
     map2 (map2 (map2 (+)))
       (map2 (map2 (map2 (*))) (map3 (\<lambda>v. 1 - v) (map3 sigmoid (gate_logits x w b))) h)
       (map2 (map2 (map2 (*))) (map3 sigmoid (gate_logits x w b)) (map3 g (candidate_logits x w b)))"

definition log_coeffs_of :: "tensor3 \<Rightarrow> matrix \<Rightarrow> vec option \<Rightarrow> tensor3" where
  "log_coeffs_of x w b = map3 (\<lambda>v. - softplus v) (gate_logits x w b)"

definition log_values_of :: "tensor3 \<Rightarrow> tensor3 \<Rightarrow> matrix \<Rightarrow> vec option \<Rightarrow> tensor3" where
  "log_values_of x h w b =
     map2 (@) (map3 ln h)
       (map2 (map2 (map2 (+))) (map3 (\<lambda>v. - softplus (- v)) (gate_logits x w b))
          (map3 log_g (candidate_logits x w b)))"

definition par_out :: "tensor3 \<Rightarrow> tensor3 \<Rightarrow> matrix \<Rightarrow> vec option \<Rightarrow> tensor3" where
  "par_out x h w b =
     map (drop 1) (map2 scan_batch (log_coeffs_of x w b) (log_values_of x h w b))"


section \<open>Properties of the activation pair\<close>

lemma sigmoid_pos: "0 < sigmoid x"
  by (simp add: sigmoid_def add_pos_pos)

lemma sigmoid_less_one: "sigmoid x < 1"
  by (simp add: sigmoid_def add_pos_pos)

lemma sigmoid_zero: "sigmoid 0 = 1 / 2"
  by (simp add: sigmoid_def)

lemma g_pos: "0 < g x"
  by (simp add: g_def sigmoid_pos)

lemma exp_neg_softplus: "exp (- softplus x) = 1 - sigmoid x"
proof -
  have p: "0 < 1 + exp x" by (simp add: add_pos_pos)
  have "exp (- softplus x) = 1 / (1 + exp x)"
    using p by (simp add: softplus_def exp_minus inverse_eq_divide)
  also have "\<dots> = 1 - sigmoid x"
    using p by (simp add: sigmoid_def exp_minus field_simps)
  finally show ?thesis .
qed

lemma exp_neg_softplus_neg: "exp (- softplus (- x)) = sigmoid x"
proof -
  have p: "0 < 1 + exp (- x)" by (simp add: add_pos_pos)
  show ?thesis
    using p by (simp add: softplus_def sigmoid_def exp_minus inverse_eq_divide)
qed

lemma exp_log_g: "exp (log_g x) = g x"
  by (simp add: log_g_def g_def exp_neg_softplus_neg)

lemma isCont_g_zero: "isCont g 0"
proof -
  have left: "continuous (at_left 0) g"
  proof -
    have "(sigmoid \<longlongrightarrow> sigmoid 0) (at_left 0)"
      unfolding sigmoid_def by (intro tendsto_intros) (simp_all add: add_pos_pos)
    moreover have "eventually (\<lambda>x. g x = sigmoid x) (at_left (0::real))"
      by (simp add: eventually_at_filter g_def)
    ultimately have "(g \<longlongrightarrow> sigmoid 0) (at_left 0)"
      by (simp add: tendsto_cong)
    then show ?thesis
      by (simp add: continuous_within g_def sigmoid_zero)
  qed
  have right: "continuous (at_right 0) g"
  proof -
    have "((\<lambda>x::real. x + 0.5) \<longlongrightarrow> 0 + 0.5) (at_right 0)"
      by (intro tendsto_intros)
    moreover have "eventually (\<lambda>x. g x = x + 0.5) (at_right (0::real))"
      by (simp add: eventually_at_filter g_def)
    ultimately have "(g \<longlongrightarrow> 0 + 0.5) (at_right 0)"
      by (simp add: tendsto_cong)
    then show ?thesis
      by (simp add: continuous_within g_def)
  qed
  show ?thesis
    using left right by (simp add: continuous_at_split)
qed

text \<open>
  C3. The activation \<open>g\<close> returns \<open>x + 0.5\<close> for \<open>x \<ge> 0\<close> and \<open>sigmoid x\<close> for \<open>x < 0\<close>;
  its values are strictly positive; both branches give \<open>0.5\<close> at \<open>0\<close>, and \<open>g\<close> is
  continuous there.
\<close>

theorem g_piecewise_positive_continuous:
  "(x \<ge> 0 \<longrightarrow> g x = x + 0.5) \<and> (x < 0 \<longrightarrow> g x = sigmoid x) \<and> 0 < g x
   \<and> sigmoid 0 = 0.5 \<and> g 0 = 0.5 \<and> isCont g 0"
  using isCont_g_zero by (simp add: g_def sigmoid_pos sigmoid_zero)

theorem g_piecewise_positive_continuous_witness:
  "g 2 = 2.5 \<and> g (- 1) = sigmoid (- 1) \<and> 0 < g 2 \<and> 0 < g (- 1) \<and> isCont g 0"
  using g_piecewise_positive_continuous [of 2] g_piecewise_positive_continuous [of "- 1"]
  by simp

text \<open>
  Over the reals, \<open>exp (log_g x)\<close> equals \<open>g x\<close> for every \<open>x\<close>: \<open>log_g\<close> computes the
  logarithm of the branch of \<open>g\<close> selected by the sign of \<open>x\<close>. Both logarithms are
  taken of strictly positive numbers (\<open>x + 0.5\<close> when \<open>x \<ge> 0\<close>, \<open>1 + exp (- x)\<close> inside
  \<open>softplus\<close>), so \<open>log_g\<close> is the logarithm of \<open>g\<close> and \<open>g\<close> is positive. This is a fact
  of real arithmetic: the rounding, underflow and overflow of a floating-point format,
  and the linear branch that \<^verbatim>\<open>F.softplus\<close> takes above its threshold against them, are
  not part of it.
\<close>

lemma exp_log_g_eq_g:
  "exp (log_g x) = g x \<and> log_g x = ln (g x) \<and> 0 < g x"
proof -
  have "exp (log_g x) = g x" by (rule exp_log_g)
  moreover from this have "log_g x = ln (g x)"
    by (metis ln_exp)
  ultimately show ?thesis by (simp add: g_pos)
qed


section \<open>The scan solves the recurrence\<close>

lemma length_cumsum: "length (cumsum xs) = length xs"
  by (simp add: cumsum_def)

lemma cumsum_nth: "t < length xs \<Longrightarrow> cumsum xs ! t = sum_list (take (Suc t) xs)"
  by (simp add: cumsum_def)

lemma length_logcumsumexp: "length (logcumsumexp ds) = length ds"
  by (simp add: logcumsumexp_def)

lemma sum_list_exp_pos: "ds \<noteq> [] \<Longrightarrow> 0 < (\<Sum>d\<leftarrow>ds. exp (d - m :: real))"
proof (induction ds)
  case Nil
  then show ?case by simp
next
  case (Cons d ds)
  have "0 \<le> (\<Sum>d\<leftarrow>ds. exp (d - m))"
    by (rule sum_list_nonneg) auto
  then show ?case
    by (simp add: add_pos_nonneg)
qed

lemma exp_logsumexp: 
  assumes "ds \<noteq> []" shows "exp (logsumexp ds) = (\<Sum>d\<leftarrow>ds. exp d)"
proof -
  define m where "m = Max (set ds)"
  have "exp (logsumexp ds) = exp m * (\<Sum>d\<leftarrow>ds. exp (d - m))"
    using sum_list_exp_pos [OF assms, of m]
    by (simp add: logsumexp_def m_def [symmetric] exp_add)
  also have "\<dots> = (\<Sum>d\<leftarrow>ds. exp m * exp (d - m))"
    by (simp add: sum_list_const_mult)
  also have "\<dots> = (\<Sum>d\<leftarrow>ds. exp d)"
    by (simp add: exp_add [symmetric])
  finally show ?thesis .
qed

lemma length_scan_series:
  "length b = Suc (length a) \<Longrightarrow> length (scan_series a b) = Suc (length a)"
  by (simp add: scan_series_def Let_def length_cumsum length_logcumsumexp)

lemma scan_series_nth:
  assumes len: "length b = Suc (length a)" and t: "t \<le> length a"
  shows "scan_series a b ! t
         = exp (sum_list (take t a)) * (\<Sum>k\<leftarrow>[0..<Suc t]. exp (b ! k - sum_list (take k a)))"
proof -
  define Astar where "Astar = cumsum (0 # a)"
  define D where "D = map2 (-) b Astar"
  have lA: "length Astar = Suc (length a)" by (simp add: Astar_def length_cumsum)
  have lD: "length D = Suc (length a)" by (simp add: D_def lA len)
  have A: "Astar ! k = sum_list (take k a)" if "k \<le> length a" for k
    using that by (simp add: Astar_def cumsum_nth)
  have Dk: "D ! k = b ! k - sum_list (take k a)" if "k \<le> length a" for k
    using that by (simp add: D_def lA len A)
  have tk: "take (Suc t) D = map (\<lambda>k. b ! k - sum_list (take k a)) [0..<Suc t]"
  proof (rule nth_equalityI)
    show "length (take (Suc t) D) = length (map (\<lambda>k. b ! k - sum_list (take k a)) [0..<Suc t])"
      using t by (simp add: lD)
  next
    fix i assume "i < length (take (Suc t) D)"
    then have i: "i < Suc t" by simp
    then have "i \<le> length a" using t by simp
    then show "take (Suc t) D ! i = map (\<lambda>k. b ! k - sum_list (take k a)) [0..<Suc t] ! i"
      using i Dk by (simp del: upt_Suc)
  qed
  have ne: "take (Suc t) D \<noteq> []" using lD by auto
  have "scan_series a b ! t = exp (Astar ! t + logsumexp (take (Suc t) D))"
    using t by (simp add: scan_series_def Let_def Astar_def [symmetric] D_def [symmetric]
        lA lD len length_logcumsumexp logcumsumexp_def del: upt_Suc)
  also have "\<dots> = exp (sum_list (take t a)) * (\<Sum>d\<leftarrow>take (Suc t) D. exp d)"
    using t by (simp add: exp_add A exp_logsumexp [OF ne])
  also have "(\<Sum>d\<leftarrow>take (Suc t) D. exp d) = (\<Sum>k\<leftarrow>[0..<Suc t]. exp (b ! k - sum_list (take k a)))"
    by (simp add: tk comp_def del: upt_Suc)
  finally show ?thesis .
qed

lemma scan_series_0:
  "length b = Suc (length a) \<Longrightarrow> scan_series a b ! 0 = exp (b ! 0)"
  by (simp add: scan_series_nth)

lemma scan_series_Suc:
  assumes len: "length b = Suc (length a)" and t: "t < length a"
  shows "scan_series a b ! Suc t = exp (a ! t) * scan_series a b ! t + exp (b ! Suc t)"
proof -
  have s: "sum_list (take (Suc t) a) = sum_list (take t a) + a ! t"
    using t by (simp add: take_Suc_conv_app_nth)
  have "scan_series a b ! Suc t
        = exp (sum_list (take (Suc t) a)) * ((\<Sum>k\<leftarrow>[0..<Suc t]. exp (b ! k - sum_list (take k a)))
            + exp (b ! Suc t - sum_list (take (Suc t) a)))"
    using t by (subst scan_series_nth [OF len]) simp_all
  also have "\<dots> = exp (a ! t) * (exp (sum_list (take t a)) * (\<Sum>k\<leftarrow>[0..<Suc t]. exp (b ! k - sum_list (take k a))))
            + exp (b ! Suc t)"
    by (simp add: s exp_add exp_diff distrib_left algebra_simps)
  also have "\<dots> = exp (a ! t) * scan_series a b ! t + exp (b ! Suc t)"
    using t scan_series_nth [OF len, of t] by simp
  finally show ?thesis .
qed

lemma shaped2_nth:
  "shaped2 R C w \<longleftrightarrow> length w = R \<and> (\<forall>j<R. length (w ! j) = C)"
  by (auto simp: shaped2_def all_set_conv_all_nth)

lemma shaped3_nth:
  "shaped3 B S C t \<longleftrightarrow>
     length t = B \<and> (\<forall>i<B. length (t ! i) = S \<and> (\<forall>j<S. length (t ! i ! j) = C))"
  by (auto simp: shaped3_def shaped2_nth all_set_conv_all_nth)

lemma tensor3_eqI:
  assumes "shaped3 B S C a" and "shaped3 B S C b"
    and "\<And>i t c. i < B \<Longrightarrow> t < S \<Longrightarrow> c < C \<Longrightarrow> a ! i ! t ! c = b ! i ! t ! c"
  shows "a = b"
  using assms by (auto simp: shaped3_nth intro!: nth_equalityI)

lemma shaped3_map3: "shaped3 B S C t \<Longrightarrow> shaped3 B S C (map3 f t)"
  by (simp add: shaped3_nth map3_def)

lemma nth_map3:
  "shaped3 B S C t \<Longrightarrow> i < B \<Longrightarrow> j < S \<Longrightarrow> c < C \<Longrightarrow> map3 f t ! i ! j ! c = f (t ! i ! j ! c)"
  by (simp add: shaped3_nth map3_def)

lemma same_shape3I: "shaped3 B S C a \<Longrightarrow> shaped3 B S C b \<Longrightarrow> same_shape3 a b"
  by (simp add: shaped3_nth same_shape3_def list_all2_conv_all_nth)

lemma zip_with3_shaped:
  "shaped3 B S C a \<Longrightarrow> shaped3 B S C b \<Longrightarrow>
   zip_with3 f a b = Some (map2 (map2 (map2 f)) a b)"
  by (simp add: zip_with3_def same_shape3I)

lemma shaped3_map2:
  "shaped3 B S C a \<Longrightarrow> shaped3 B S C b \<Longrightarrow> shaped3 B S C (map2 (map2 (map2 f)) a b)"
  by (simp add: shaped3_nth)

lemma nth_map2_3:
  "shaped3 B S C a \<Longrightarrow> shaped3 B S C b \<Longrightarrow> i < B \<Longrightarrow> j < S \<Longrightarrow> c < C \<Longrightarrow>
   map2 (map2 (map2 f)) a b ! i ! j ! c = f (a ! i ! j ! c) (b ! i ! j ! c)"
  by (simp add: shaped3_nth)

lemma length_linear_row: "bias_ok (length w) b \<Longrightarrow> length (linear_row r w b) = length w"
  by (simp add: linear_row_def bias_ok_def split: option.splits)

lemma F_linear_shaped:
  assumes "shaped3 B S Cin x" and "shaped2 R Cin w" and "bias_ok R b"
  shows "F_linear x w b = Some (map (map (\<lambda>r. linear_row r w b)) x)"
  using assms by (auto simp: F_linear_def shaped3_def shaped2_def)

lemma shaped3_linear:
  assumes "shaped3 B S Cin x" and "shaped2 R Cin w" and "bias_ok R b"
  shows "shaped3 B S R (map (map (\<lambda>r. linear_row r w b)) x)"
  using assms by (auto simp: shaped3_def shaped2_def length_linear_row)

lemma chunk_dim2_shaped:
  assumes "shaped3 B S (2 * H) y"
  shows "chunk_dim2 y = Some (map (map (take H)) y, map (map (drop H)) y)"
proof -
  have "\<forall>m\<in>set y. \<forall>r\<in>set m. length r = 2 * H"
    using assms by (auto simp: shaped3_def shaped2_def)
  then show ?thesis
    by (auto simp: chunk_dim2_def)
qed

lemma shaped3_gate:
  assumes "shaped3 B S Cin x" and "shaped2 (2 * H) Cin w" and "bias_ok (2 * H) b"
  shows "shaped3 B S H (gate_logits x w b)"
proof -
  have l: "length w = 2 * H" using assms by (simp add: shaped2_def)
  then have "length (linear_row r w b) = 2 * H" for r
    using assms(3) by (simp add: length_linear_row)
  then show ?thesis
    using assms(1) by (simp add: gate_logits_def shaped3_nth l)
qed

lemma shaped3_candidate:
  assumes "shaped3 B S Cin x" and "shaped2 (2 * H) Cin w" and "bias_ok (2 * H) b"
  shows "shaped3 B S H (candidate_logits x w b)"
proof -
  have l: "length w = 2 * H" using assms by (simp add: shaped2_def)
  then have "length (linear_row r w b) = 2 * H" for r
    using assms(3) by (simp add: length_linear_row)
  then show ?thesis
    using assms(1) by (simp add: candidate_logits_def shaped3_nth l)
qed

lemma linear_chunk:
  assumes "shaped3 B S Cin x" and "shaped2 (2 * H) Cin w" and "bias_ok (2 * H) b"
  shows "F_linear x w b \<bind> chunk_dim2
         = Some (gate_logits x w b, candidate_logits x w b)"
proof -
  have l: "length w = 2 * H" using assms by (simp add: shaped2_def)
  show ?thesis
    using chunk_dim2_shaped [OF shaped3_linear [OF assms]]
    by (simp add: F_linear_shaped [OF assms] gate_logits_def candidate_logits_def l comp_def)
qed

lemma mingru_sequential_shaped:
  assumes x: "shaped3 B S Cin x" and w: "shaped2 (2 * H) Cin w" and b: "bias_ok (2 * H) b"
    and h: "shaped3 B S H h"
  shows "mingru_sequential x h w b = Some (seq_out x h w b)"
proof -
  note G = shaped3_gate [OF x w b] and C = shaped3_candidate [OF x w b]
  have z: "shaped3 B S H (map3 sigmoid (gate_logits x w b))"
    by (rule shaped3_map3 [OF G])
  have z1: "shaped3 B S H (map3 (\<lambda>v. 1 - v) (map3 sigmoid (gate_logits x w b)))"
    by (rule shaped3_map3 [OF z])
  have ht: "shaped3 B S H (map3 g (candidate_logits x w b))"
    by (rule shaped3_map3 [OF C])
  have "mingru_sequential x h w b
        = (F_linear x w b \<bind> chunk_dim2) \<bind> (\<lambda>(gate, hidden).
             mul3 (map3 (\<lambda>v. 1 - v) (map3 sigmoid gate)) h \<bind> (\<lambda>keep.
             mul3 (map3 sigmoid gate) (map3 g hidden) \<bind> (\<lambda>new. add3 keep new)))"
    by (simp add: mingru_sequential_def Let_def)
  also have "\<dots> = Some (seq_out x h w b)"
    by (simp add: linear_chunk [OF x w b] mul3_def add3_def seq_out_def
        zip_with3_shaped [OF z1 h] zip_with3_shaped [OF z ht]
        zip_with3_shaped [OF shaped3_map2 [OF z1 h] shaped3_map2 [OF z ht]])
  finally show ?thesis .
qed

lemma shaped3_seq_out:
  assumes x: "shaped3 B S Cin x" and w: "shaped2 (2 * H) Cin w" and b: "bias_ok (2 * H) b"
    and h: "shaped3 B S H h"
  shows "shaped3 B S H (seq_out x h w b)"
  unfolding seq_out_def
  by (intro shaped3_map2 shaped3_map3 shaped3_gate [OF x w b] shaped3_candidate [OF x w b] h)

lemma nth_seq_out:
  assumes x: "shaped3 B S Cin x" and w: "shaped2 (2 * H) Cin w" and b: "bias_ok (2 * H) b"
    and h: "shaped3 B S H h" and i: "i < B" and t: "t < S" and c: "c < H"
  shows "seq_out x h w b ! i ! t ! c
         = (1 - sigmoid (gate_logits x w b ! i ! t ! c)) * h ! i ! t ! c
           + sigmoid (gate_logits x w b ! i ! t ! c) * g (candidate_logits x w b ! i ! t ! c)"
proof -
  note G = shaped3_gate [OF x w b] and C = shaped3_candidate [OF x w b]
  have z: "shaped3 B S H (map3 sigmoid (gate_logits x w b))"
    by (rule shaped3_map3 [OF G])
  have z1: "shaped3 B S H (map3 (\<lambda>v. 1 - v) (map3 sigmoid (gate_logits x w b)))"
    by (rule shaped3_map3 [OF z])
  have ht: "shaped3 B S H (map3 g (candidate_logits x w b))"
    by (rule shaped3_map3 [OF C])
  show ?thesis
    unfolding seq_out_def
    by (simp only: nth_map2_3 [OF shaped3_map2 [OF z1 h] shaped3_map2 [OF z ht] i t c]
        nth_map2_3 [OF z1 h i t c] nth_map2_3 [OF z ht i t c]
        nth_map3 [OF z i t c] nth_map3 [OF G i t c] nth_map3 [OF C i t c])
qed

lemma shaped3_time_slice:
  "shaped3 B S C x \<Longrightarrow> t < S \<Longrightarrow> shaped3 B 1 C (time_slice t x)"
  by (auto simp: shaped3_nth time_slice_def)

lemma gate_time_slice:
  "gate_logits (time_slice t x) w b = time_slice t (gate_logits x w b)"
  by (simp add: gate_logits_def time_slice_def take_map drop_map)

lemma candidate_time_slice:
  "candidate_logits (time_slice t x) w b = time_slice t (candidate_logits x w b)"
  by (simp add: candidate_logits_def time_slice_def take_map drop_map)

lemma nth_time_slice:
  "shaped3 B S C x \<Longrightarrow> t < S \<Longrightarrow> i < B \<Longrightarrow> time_slice t x ! i ! 0 = x ! i ! t"
  by (simp add: shaped3_nth time_slice_def)

lemma step_time_slice:
  assumes x: "shaped3 B S Cin x" and w: "shaped2 (2 * H) Cin w" and b: "bias_ok (2 * H) b"
    and h: "shaped3 B 1 H h" and t: "t < S" and i: "i < B" and c: "c < H"
  shows "seq_out (time_slice t x) h w b ! i ! 0 ! c
         = (1 - gate_at x w b i c t) * h ! i ! 0 ! c + gate_at x w b i c t * candidate_at x w b i c t"
  using nth_seq_out [OF shaped3_time_slice [OF x t] w b h i _ c, of 0]
  by (simp add: gate_time_slice candidate_time_slice gate_at_def candidate_at_def
      nth_time_slice [OF shaped3_gate [OF x w b] t i]
      nth_time_slice [OF shaped3_candidate [OF x w b] t i])

lemma rollout_shaped:
  assumes x: "shaped3 B S Cin x" and w: "shaped2 (2 * H) Cin w" and b: "bias_ok (2 * H) b"
  shows "shaped3 B 1 H h \<Longrightarrow> t + n \<le> S \<Longrightarrow>
     (\<And>i c. i < B \<Longrightarrow> c < H \<Longrightarrow>
        h ! i ! 0 ! c = trajectory (gate_at x w b i c) (candidate_at x w b i c) (h0 i c) t) \<Longrightarrow>
     \<exists>hs. rollout x w b h t n = Some hs \<and> length hs = n \<and>
       (\<forall>k<n. shaped3 B 1 H (hs ! k) \<and>
          (\<forall>i<B. \<forall>c<H. hs ! k ! i ! 0 ! c
             = trajectory (gate_at x w b i c) (candidate_at x w b i c) (h0 i c) (t + Suc k)))"
proof (induction n arbitrary: h t)
  case 0
  then show ?case by simp
next
  case (Suc n)
  define h' where "h' = seq_out (time_slice t x) h w b"
  have t: "t < S" using Suc.prems(2) by simp
  note xs = shaped3_time_slice [OF x t]
  have step: "mingru_sequential (time_slice t x) h w b = Some h'"
    unfolding h'_def by (rule mingru_sequential_shaped [OF xs w b Suc.prems(1)])
  have sh: "shaped3 B 1 H h'"
    unfolding h'_def by (rule shaped3_seq_out [OF xs w b Suc.prems(1)])
  have val: "h' ! i ! 0 ! c
             = trajectory (gate_at x w b i c) (candidate_at x w b i c) (h0 i c) (Suc t)"
    if "i < B" "c < H" for i c
    unfolding h'_def
    using step_time_slice [OF x w b Suc.prems(1) t that] Suc.prems(3) [OF that] by simp
  have "\<exists>hs. rollout x w b h' (Suc t) n = Some hs \<and> length hs = n \<and>
       (\<forall>k<n. shaped3 B 1 H (hs ! k) \<and>
          (\<forall>i<B. \<forall>c<H. hs ! k ! i ! 0 ! c
             = trajectory (gate_at x w b i c) (candidate_at x w b i c) (h0 i c) (Suc t + Suc k)))"
  proof (rule Suc.IH [OF sh])
    show "Suc t + n \<le> S" using Suc.prems(2) by simp
    show "\<And>i c. i < B \<Longrightarrow> c < H \<Longrightarrow> h' ! i ! 0 ! c
             = trajectory (gate_at x w b i c) (candidate_at x w b i c) (h0 i c) (Suc t)"
      by (rule val)
  qed
  then obtain hs where hs: "rollout x w b h' (Suc t) n = Some hs" "length hs = n"
    and rest: "\<And>k. k < n \<Longrightarrow> shaped3 B 1 H (hs ! k) \<and>
          (\<forall>i<B. \<forall>c<H. hs ! k ! i ! 0 ! c
             = trajectory (gate_at x w b i c) (candidate_at x w b i c) (h0 i c) (Suc t + Suc k))"
    by auto
  have "rollout x w b h t (Suc n) = Some (h' # hs)"
    by (simp add: step hs)
  moreover have "shaped3 B 1 H ((h' # hs) ! k) \<and>
          (\<forall>i<B. \<forall>c<H. (h' # hs) ! k ! i ! 0 ! c
             = trajectory (gate_at x w b i c) (candidate_at x w b i c) (h0 i c) (t + Suc k))"
    if "k < Suc n" for k
  proof (cases k)
    case 0
    then show ?thesis using sh val by simp
  next
    case (Suc j)
    then show ?thesis using rest [of j] that by simp
  qed
  ultimately show ?case using hs(2) by simp
qed

lemma concat_singletons:
  "(\<And>h. h \<in> set hs \<Longrightarrow> length (f h) = 1) \<Longrightarrow> concat (map f hs) = map (\<lambda>h. f h ! 0) hs"
proof (induction hs)
  case Nil
  then show ?case by simp
next
  case (Cons a hs)
  have "length (f a) = 1" using Cons.prems by simp
  then have "f a = [f a ! 0]"
    by (cases "f a") simp_all
  then show ?case using Cons by simp
qed

lemma cat_states_nth:
  assumes "\<And>k. k < length hs \<Longrightarrow> shaped3 B 1 H (hs ! k)" and "i < B"
  shows "cat_states B hs ! i = map (\<lambda>h. h ! i ! 0) hs"
proof -
  have "length (h ! i) = 1" if "h \<in> set hs" for h
    using that assms by (auto simp: in_set_conv_nth shaped3_nth)
  then show ?thesis
    using assms(2) by (simp add: cat_states_def concat_singletons)
qed

lemma shaped3_cat_states:
  assumes "\<And>k. k < length hs \<Longrightarrow> shaped3 B 1 H (hs ! k)"
  shows "shaped3 B (length hs) H (cat_states B hs)"
proof -
  have "length (cat_states B hs) = B" by (simp add: cat_states_def)
  moreover have "length (cat_states B hs ! i) = length hs" if "i < B" for i
    using cat_states_nth [OF assms that] by simp
  moreover have "length (cat_states B hs ! i ! k) = H" if "i < B" "k < length hs" for i k
    using cat_states_nth [OF assms that(1)] assms [OF that(2)] that by (simp add: shaped3_nth)
  ultimately show ?thesis by (simp add: shaped3_nth)
qed



lemma shaped3_log_coeffs:
  assumes x: "shaped3 B S Cin x" and w: "shaped2 (2 * H) Cin w" and b: "bias_ok (2 * H) b"
  shows "shaped3 B S H (log_coeffs_of x w b)"
  unfolding log_coeffs_of_def by (rule shaped3_map3 [OF shaped3_gate [OF x w b]])

lemma shaped3_log_new:
  assumes x: "shaped3 B S Cin x" and w: "shaped2 (2 * H) Cin w" and b: "bias_ok (2 * H) b"
  shows "shaped3 B S H (map2 (map2 (map2 (+))) (map3 (\<lambda>v. - softplus (- v)) (gate_logits x w b))
          (map3 log_g (candidate_logits x w b)))"
  by (intro shaped3_map2 shaped3_map3 shaped3_gate [OF x w b] shaped3_candidate [OF x w b])

lemma shaped3_append:
  "shaped3 B S C p \<Longrightarrow> shaped3 B T C q \<Longrightarrow> shaped3 B (S + T) C (map2 (@) p q)"
  by (auto simp: shaped3_nth nth_append)

lemma shaped3_log_values:
  assumes x: "shaped3 B S Cin x" and w: "shaped2 (2 * H) Cin w" and b: "bias_ok (2 * H) b"
    and h: "shaped3 B 1 H h"
  shows "shaped3 B (Suc S) H (log_values_of x h w b)"
  using shaped3_append [OF shaped3_map3 [OF h] shaped3_log_new [OF x w b]]
  by (simp add: log_values_of_def)

lemma cat1_shaped:
  assumes "shaped3 B S C p" and "shaped3 B T C q"
  shows "cat1 p q = Some (map2 (@) p q)"
proof -
  have "\<forall>u\<in>set (p ! i). \<forall>v\<in>set (q ! i). length u = length v" if "i < B" for i
  proof -
    have "shaped2 S C (p ! i)" and "shaped2 T C (q ! i)"
      using assms that by (auto simp: shaped3_def)
    then show ?thesis by (simp add: shaped2_def)
  qed
  then have "list_all2 (\<lambda>p q. \<forall>u\<in>set p. \<forall>v\<in>set q. length u = length v) p q"
    using assms by (simp add: list_all2_conv_all_nth shaped3_def)
  then show ?thesis by (simp add: cat1_def)
qed

lemma parallel_scan_log_shaped:
  assumes "shaped3 B S C lc" and "shaped3 B (Suc S) C lv"
  shows "parallel_scan_log lc lv = Some (map2 scan_batch lc lv)"
proof -
  have "length (lv ! i) = Suc (length (lc ! i))
        \<and> (\<forall>u\<in>set (lc ! i @ lv ! i). length u = length (hd (lv ! i)))" if "i < B" for i
  proof -
    have a: "shaped2 S C (lc ! i)" and b: "shaped2 (Suc S) C (lv ! i)"
      using assms that by (auto simp: shaped3_def)
    have "lv ! i \<noteq> []" using b by (auto simp: shaped2_def)
    then have "hd (lv ! i) \<in> set (lv ! i)" by simp
    then have "length (hd (lv ! i)) = C" using b by (simp add: shaped2_def)
    then show ?thesis using a b by (auto simp: shaped2_def)
  qed
  then have "list_all2 (\<lambda>a b. length b = Suc (length a)
                      \<and> (\<forall>u\<in>set (a @ b). length u = length (hd b))) lc lv"
    using assms by (simp add: list_all2_conv_all_nth shaped3_def)
  then show ?thesis by (simp add: parallel_scan_log_def)
qed

lemma mingru_parallel_shaped:
  assumes x: "shaped3 B S Cin x" and w: "shaped2 (2 * H) Cin w" and b: "bias_ok (2 * H) b"
    and h: "shaped3 B 1 H h"
  shows "mingru_parallel x h w b = Some (par_out x h w b)"
proof -
  note G = shaped3_gate [OF x w b] and C = shaped3_candidate [OF x w b]
  have "mingru_parallel x h w b
        = (F_linear x w b \<bind> chunk_dim2) \<bind> (\<lambda>(gate, hidden).
             add3 (map3 (\<lambda>v. - softplus (- v)) gate) (map3 log_g hidden) \<bind> (\<lambda>log_new.
             cat1 (map3 ln h) log_new \<bind> (\<lambda>log_values.
             parallel_scan_log (map3 (\<lambda>v. - softplus v) gate) log_values \<bind> (\<lambda>h'.
             Some (map (drop 1) h')))))"
    by (simp add: mingru_parallel_def Let_def)
  also have "\<dots> = Some (par_out x h w b)"
    using parallel_scan_log_shaped [OF shaped3_log_coeffs [OF x w b] shaped3_log_values [OF x w b h]]
    by (simp add: linear_chunk [OF x w b] add3_def
        zip_with3_shaped [OF shaped3_map3 [OF G] shaped3_map3 [OF C]]
        cat1_shaped [OF shaped3_map3 [OF h] shaped3_log_new [OF x w b]]
        par_out_def log_coeffs_of_def log_values_of_def)
  finally show ?thesis .
qed

lemma scan_batch_nth:
  assumes "shaped2 S C a" and "shaped2 (Suc S) C b" and "t \<le> S" and "c < C"
  shows "scan_batch a b ! t ! c = scan_series (column c a) (column c b) ! t"
proof -
  have "b \<noteq> []" using assms(2) by (auto simp: shaped2_def)
  then have "hd b \<in> set b" by simp
  then have "length (hd b) = C" using assms(2) by (simp add: shaped2_def)
  moreover have "length b = Suc S" using assms(2) by (simp add: shaped2_def)
  ultimately show ?thesis
    using assms(3,4) by (simp add: scan_batch_def Let_def del: upt_Suc)
qed

lemma shaped3_par_out:
  assumes x: "shaped3 B S Cin x" and w: "shaped2 (2 * H) Cin w" and b: "bias_ok (2 * H) b"
    and h: "shaped3 B 1 H h"
  shows "shaped3 B S H (par_out x h w b)"
proof -
  note lc = shaped3_log_coeffs [OF x w b] and lv = shaped3_log_values [OF x w b h]
  have "length (hd (log_values_of x h w b ! i)) = H" if "i < B" for i
  proof -
    have s: "shaped2 (Suc S) H (log_values_of x h w b ! i)"
      using lv that by (simp add: shaped3_def)
    then have "log_values_of x h w b ! i \<noteq> []" by (auto simp: shaped2_def)
    then have "hd (log_values_of x h w b ! i) \<in> set (log_values_of x h w b ! i)" by simp
    then show ?thesis using s by (simp add: shaped2_def)
  qed
  then show ?thesis
    using lc lv by (simp add: par_out_def shaped3_nth scan_batch_def Let_def del: upt_Suc)
qed

lemma nth_par_out:
  assumes x: "shaped3 B S Cin x" and w: "shaped2 (2 * H) Cin w" and b: "bias_ok (2 * H) b"
    and h: "shaped3 B 1 H h" and i: "i < B" and t: "t < S" and c: "c < H"
  shows "par_out x h w b ! i ! t ! c
         = scan_series (column c (log_coeffs_of x w b ! i)) (column c (log_values_of x h w b ! i)) ! Suc t"
proof -
  note lc = shaped3_log_coeffs [OF x w b] and lv = shaped3_log_values [OF x w b h]
  have a: "shaped2 S H (log_coeffs_of x w b ! i)" using lc i by (simp add: shaped3_def)
  have bb: "shaped2 (Suc S) H (log_values_of x h w b ! i)" using lv i by (simp add: shaped3_def)
  have len: "length (scan_batch (log_coeffs_of x w b ! i) (log_values_of x h w b ! i)) = Suc S"
    using bb by (simp add: scan_batch_def Let_def shaped2_def del: upt_Suc)
  have "par_out x h w b ! i ! t
        = scan_batch (log_coeffs_of x w b ! i) (log_values_of x h w b ! i) ! Suc t"
    using lc lv i t len by (simp add: par_out_def shaped3_nth)
  then show ?thesis
    using scan_batch_nth [OF a bb _ c, of "Suc t"] t by simp
qed

lemma positive3_nth:
  "positive3 t \<Longrightarrow> shaped3 B S C t \<Longrightarrow> i < B \<Longrightarrow> j < S \<Longrightarrow> c < C \<Longrightarrow> 0 < t ! i ! j ! c"
proof -
  assume p: "positive3 t" and s: "shaped3 B S C t" and i: "i < B" and j: "j < S" and c: "c < C"
  have "t ! i \<in> set t" using s i by (simp add: shaped3_nth)
  moreover have "t ! i ! j \<in> set (t ! i)" using s i j by (simp add: shaped3_nth)
  moreover have "t ! i ! j ! c \<in> set (t ! i ! j)" using s i j c by (simp add: shaped3_nth)
  ultimately show ?thesis using p unfolding positive3_def by blast
qed

lemma column_log_coeffs:
  assumes x: "shaped3 B S Cin x" and w: "shaped2 (2 * H) Cin w" and b: "bias_ok (2 * H) b"
    and i: "i < B" and c: "c < H"
  shows "length (column c (log_coeffs_of x w b ! i)) = S"
    and "t < S \<Longrightarrow> exp (column c (log_coeffs_of x w b ! i) ! t) = 1 - gate_at x w b i c t"
proof -
  note G = shaped3_gate [OF x w b]
  note lc = shaped3_log_coeffs [OF x w b]
  show l: "length (column c (log_coeffs_of x w b ! i)) = S"
    using lc i by (simp add: column_def shaped3_nth)
  assume t: "t < S"
  have "column c (log_coeffs_of x w b ! i) ! t = log_coeffs_of x w b ! i ! t ! c"
    using lc i t by (simp add: column_def shaped3_nth)
  also have "\<dots> = - softplus (gate_logits x w b ! i ! t ! c)"
    unfolding log_coeffs_of_def by (rule nth_map3 [OF G i t c])
  finally show "exp (column c (log_coeffs_of x w b ! i) ! t) = 1 - gate_at x w b i c t"
    by (simp add: exp_neg_softplus gate_at_def)
qed

lemma column_log_values:
  assumes x: "shaped3 B S Cin x" and w: "shaped2 (2 * H) Cin w" and b: "bias_ok (2 * H) b"
    and h: "shaped3 B 1 H h" and i: "i < B" and c: "c < H"
  shows "length (column c (log_values_of x h w b ! i)) = Suc S"
    and "column c (log_values_of x h w b ! i) ! 0 = ln (h ! i ! 0 ! c)"
    and "t < S \<Longrightarrow> exp (column c (log_values_of x h w b ! i) ! Suc t)
                    = gate_at x w b i c t * candidate_at x w b i c t"
proof -
  note G = shaped3_gate [OF x w b] and C = shaped3_candidate [OF x w b]
  note lv = shaped3_log_values [OF x w b h]
  note ln = shaped3_log_new [OF x w b]
  note lh = shaped3_map3 [OF h, of ln]
  show "length (column c (log_values_of x h w b ! i)) = Suc S"
    using lv i by (simp add: column_def shaped3_nth)
  have split: "log_values_of x h w b ! i
        = map3 ln h ! i @ map2 (map2 (map2 (+))) (map3 (\<lambda>v. - softplus (- v)) (gate_logits x w b))
          (map3 log_g (candidate_logits x w b)) ! i"
    using lh ln i by (simp add: log_values_of_def shaped3_nth)
  have l1: "length (map3 ln h ! i) = 1"
    using lh i by (simp add: shaped3_nth)
  have "column c (log_values_of x h w b ! i) ! 0 = map3 ln h ! i ! 0 ! c"
    using lv i l1 by (simp add: column_def shaped3_nth split nth_append)
  also have "\<dots> = ln (h ! i ! 0 ! c)"
    by (rule nth_map3 [OF h i _ c]) simp
  finally show "column c (log_values_of x h w b ! i) ! 0 = ln (h ! i ! 0 ! c)" .
  assume t: "t < S"
  have "column c (log_values_of x h w b ! i) ! Suc t = log_values_of x h w b ! i ! Suc t ! c"
    using lv i t by (simp add: column_def shaped3_nth)
  also have "\<dots> = map2 (map2 (map2 (+))) (map3 (\<lambda>v. - softplus (- v)) (gate_logits x w b))
          (map3 log_g (candidate_logits x w b)) ! i ! t ! c"
    using l1 by (simp add: split nth_append)
  also have "\<dots> = - softplus (- gate_logits x w b ! i ! t ! c)
                   + log_g (candidate_logits x w b ! i ! t ! c)"
    by (simp only: nth_map2_3 [OF shaped3_map3 [OF G] shaped3_map3 [OF C] i t c]
        nth_map3 [OF G i t c] nth_map3 [OF C i t c])
  finally have "exp (column c (log_values_of x h w b ! i) ! Suc t)
      = exp (- softplus (- gate_logits x w b ! i ! t ! c))
        * exp (log_g (candidate_logits x w b ! i ! t ! c))"
    by (simp only: exp_add)
  then show "exp (column c (log_values_of x h w b ! i) ! Suc t)
                    = gate_at x w b i c t * candidate_at x w b i c t"
    by (simp only: exp_neg_softplus_neg exp_log_g gate_at_def candidate_at_def)
qed

lemma scan_series_trajectory:
  assumes len: "length bs = Suc (length a)"
    and a: "\<And>t. t < length a \<Longrightarrow> exp (a ! t) = 1 - z t"
    and b0: "exp (bs ! 0) = h0"
    and b: "\<And>t. t < length a \<Longrightarrow> exp (bs ! Suc t) = z t * c t"
  shows "t \<le> length a \<Longrightarrow> scan_series a bs ! t = trajectory z c h0 t"
proof (induction t)
  case 0
  then show ?case by (simp add: scan_series_0 [OF len] b0)
next
  case (Suc t)
  then show ?case by (simp add: scan_series_Suc [OF len] a b)
qed

lemma par_out_trajectory:
  assumes x: "shaped3 B S Cin x" and w: "shaped2 (2 * H) Cin w" and b: "bias_ok (2 * H) b"
    and h: "shaped3 B 1 H h" and pos: "positive3 h" and i: "i < B" and t: "t < S" and c: "c < H"
  shows "par_out x h w b ! i ! t ! c
         = trajectory (gate_at x w b i c) (candidate_at x w b i c) (h ! i ! 0 ! c) (Suc t)"
proof -
  note la = column_log_coeffs [OF x w b i c]
  note lb = column_log_values [OF x w b h i c]
  have p: "0 < h ! i ! 0 ! c"
    by (rule positive3_nth [OF pos h i _ c]) simp
  have "scan_series (column c (log_coeffs_of x w b ! i)) (column c (log_values_of x h w b ! i)) ! Suc t
        = trajectory (gate_at x w b i c) (candidate_at x w b i c) (h ! i ! 0 ! c) (Suc t)"
  proof (rule scan_series_trajectory)
    show "length (column c (log_values_of x h w b ! i))
          = Suc (length (column c (log_coeffs_of x w b ! i)))"
      by (simp add: la(1) lb(1))
    show "exp (column c (log_values_of x h w b ! i) ! 0) = h ! i ! 0 ! c"
      using p by (simp add: lb(2))
    show "\<And>t. t < length (column c (log_coeffs_of x w b ! i)) \<Longrightarrow>
            exp (column c (log_coeffs_of x w b ! i) ! t) = 1 - gate_at x w b i c t"
      by (simp add: la)
    show "\<And>t. t < length (column c (log_coeffs_of x w b ! i)) \<Longrightarrow>
            exp (column c (log_values_of x h w b ! i) ! Suc t)
            = gate_at x w b i c t * candidate_at x w b i c t"
      by (simp add: la(1) lb(3))
    show "Suc t \<le> length (column c (log_coeffs_of x w b ! i))"
      using t by (simp add: la(1))
  qed
  then show ?thesis
    by (simp add: nth_par_out [OF x w b h i t c])
qed

lemma sequential_steps_shaped:
  assumes x: "shaped3 B S Cin x" and w: "shaped2 (2 * H) Cin w" and b: "bias_ok (2 * H) b"
    and h: "shaped3 B 1 H h" and B: "0 < B"
  shows "\<exists>r. sequential_steps x h w b = Some r \<and> shaped3 B S H r \<and>
           (\<forall>i<B. \<forall>t<S. \<forall>c<H. r ! i ! t ! c
              = trajectory (gate_at x w b i c) (candidate_at x w b i c) (h ! i ! 0 ! c) (Suc t))"
proof -
  have S: "size1 x = S"
    using x B by (cases x) (auto simp: size1_def shaped3_def shaped2_def)
  have lx: "length x = B" using x by (simp add: shaped3_def)
  from rollout_shaped [OF x w b h, of 0 S "\<lambda>i c. h ! i ! 0 ! c"]
  obtain hs where hs: "rollout x w b h 0 S = Some hs" "length hs = S"
    and sh: "\<And>k. k < S \<Longrightarrow> shaped3 B 1 H (hs ! k)"
    and val: "\<And>k i c. k < S \<Longrightarrow> i < B \<Longrightarrow> c < H \<Longrightarrow> hs ! k ! i ! 0 ! c
             = trajectory (gate_at x w b i c) (candidate_at x w b i c) (h ! i ! 0 ! c) (Suc k)"
    by auto
  have sh': "\<And>k. k < length hs \<Longrightarrow> shaped3 B 1 H (hs ! k)"
    using sh hs(2) by simp
  have "sequential_steps x h w b = Some (cat_states B hs)"
    by (simp add: sequential_steps_def S lx hs)
  moreover have "shaped3 B S H (cat_states B hs)"
    using shaped3_cat_states [OF sh'] hs(2) by simp
  moreover have "cat_states B hs ! i ! t ! c
              = trajectory (gate_at x w b i c) (candidate_at x w b i c) (h ! i ! 0 ! c) (Suc t)"
    if "i < B" "t < S" "c < H" for i t c
    using cat_states_nth [OF sh' that(1)] val [OF that(2,1,3)] that(2) hs(2) by simp
  ultimately show ?thesis by simp
qed



section \<open>Equivalence and positivity\<close>

lemma size1_shaped: "shaped3 B S C x \<Longrightarrow> 0 < B \<Longrightarrow> size1 x = S"
  by (cases x) (auto simp: size1_def shaped3_def shaped2_def)

lemma shaped3_empty: "shaped3 0 S C x \<longleftrightarrow> x = []"
  by (auto simp: shaped3_def)

lemma parallel_matches_steps:
  assumes x: "shaped3 B S Cin x" and w: "shaped2 (2 * H) Cin w" and b: "bias_ok (2 * H) b"
    and h: "shaped3 B 1 H h" and pos: "positive3 h"
  shows "mingru_parallel x h w b = Some (par_out x h w b)
         \<and> sequential_steps x h w b = Some (par_out x h w b)"
proof (cases "B = 0")
  case True
  then have "x = []" using x by (simp add: shaped3_empty)
  then show ?thesis
    using mingru_parallel_shaped [OF x w b h]
    by (simp add: sequential_steps_def size1_def cat_states_def par_out_def log_coeffs_of_def
        gate_logits_def map3_def)
next
  case False
  then have B: "0 < B" by simp
  from sequential_steps_shaped [OF x w b h B]
  obtain r where r: "sequential_steps x h w b = Some r" "shaped3 B S H r"
    and val: "\<And>i t c. i < B \<Longrightarrow> t < S \<Longrightarrow> c < H \<Longrightarrow> r ! i ! t ! c
              = trajectory (gate_at x w b i c) (candidate_at x w b i c) (h ! i ! 0 ! c) (Suc t)"
    by auto
  have "par_out x h w b = r"
  proof (rule tensor3_eqI [OF shaped3_par_out [OF x w b h] r(2)])
    fix i t c assume "i < B" "t < S" "c < H"
    then show "par_out x h w b ! i ! t ! c = r ! i ! t ! c"
      by (simp add: par_out_trajectory [OF x w b h pos] val)
  qed
  then show ?thesis
    using mingru_parallel_shaped [OF x w b h] r by simp
qed

text \<open>
  C1. On inputs of the documented shapes, with a sequence of length \<open>S \<ge> 1\<close> and a
  strictly positive initial state, the parallel evaluation returns exactly the sequence
  of states that \<open>S\<close> applications of the one-step update produce from \<open>h\<close>.
\<close>

theorem mingru_parallel_eq_sequential_steps:
  assumes "shaped3 B S Cin x" and "shaped2 (2 * H) Cin w" and "bias_ok (2 * H) b"
    and "shaped3 B 1 H h" and "positive3 h" and "1 \<le> S"
  shows "\<exists>r. mingru_parallel x h w b = Some r \<and> sequential_steps x h w b = Some r
             \<and> shaped3 B S H r"
  using parallel_matches_steps [OF assms(1-5)] shaped3_par_out [OF assms(1-4)] by simp

lemmas eval_defs = F_linear_def chunk_dim2_def map3_def mul3_def add3_def zip_with3_def
  same_shape3_def linear_row_def dot_def bias_ok_def sigmoid_def g_def

theorem mingru_parallel_eq_sequential_steps_witness:
  "shaped3 1 2 1 [[[0], [0]]] \<and> shaped2 (2 * 1) 1 [[0], [0]] \<and> bias_ok (2 * 1) (Some [0, 0])
   \<and> shaped3 1 1 1 [[[1]]] \<and> positive3 [[[1]]] \<and> (1::nat) \<le> 2
   \<and> mingru_parallel [[[0], [0]]] [[[1]]] [[0], [0]] (Some [0, 0]) = Some [[[3 / 4], [5 / 8]]]
   \<and> sequential_steps [[[0], [0]]] [[[1]]] [[0], [0]] (Some [0, 0]) = Some [[[3 / 4], [5 / 8]]]"
proof -
  have s: "sequential_steps [[[0], [0]]] [[[1]]] [[0], [0]] (Some [0, 0]) = Some [[[3 / 4], [5 / 8]]]"
    by (simp add: sequential_steps_def size1_def cat_states_def time_slice_def
        mingru_sequential_def eval_defs)
  have hyp: "shaped3 1 2 1 [[[0], [0]]]" "shaped2 (2 * 1) 1 [[0], [0]]"
    "bias_ok (2 * 1) (Some [0, 0])" "shaped3 1 1 1 [[[1]]]" "positive3 [[[1]]]" "(1::nat) \<le> 2"
    by (simp_all add: shaped3_def shaped2_def bias_ok_def positive3_def)
  from mingru_parallel_eq_sequential_steps [OF hyp] s hyp show ?thesis
    by auto
qed

lemma trajectory_pos:
  assumes "0 < h0" and "\<And>t. 0 < z t \<and> z t < 1" and "\<And>t. 0 < c t"
  shows "0 < trajectory z c h0 t"
proof (induction t)
  case 0
  then show ?case using assms(1) by simp
next
  case (Suc t)
  have "0 < (1 - z t) * trajectory z c h0 t"
    using Suc assms(2) [of t] by simp
  moreover have "0 < z t * c t"
    using assms(2) [of t] assms(3) [of t] by simp
  ultimately show ?case by simp
qed

lemma positive3I:
  assumes "shaped3 B S C t" and "\<And>i j c. i < B \<Longrightarrow> j < S \<Longrightarrow> c < C \<Longrightarrow> 0 < t ! i ! j ! c"
  shows "positive3 t"
  unfolding positive3_def
proof (intro ballI)
  fix m r v assume "m \<in> set t" "r \<in> set m" "v \<in> set r"
  then obtain i j c where "i < length t" "m = t ! i" "j < length m" "r = m ! j"
      "c < length r" "v = r ! c"
    by (auto simp: in_set_conv_nth)
  then show "0 < v"
    using assms by (simp add: shaped3_nth)
qed

lemma positive3_par_out:
  assumes x: "shaped3 B S Cin x" and w: "shaped2 (2 * H) Cin w" and b: "bias_ok (2 * H) b"
    and h: "shaped3 B 1 H h" and pos: "positive3 h"
  shows "positive3 (par_out x h w b)"
proof (rule positive3I [OF shaped3_par_out [OF x w b h]])
  fix i t c assume i: "i < B" and t: "t < S" and c: "c < H"
  have "0 < h ! i ! 0 ! c"
    by (rule positive3_nth [OF pos h i _ c]) simp
  then have "0 < trajectory (gate_at x w b i c) (candidate_at x w b i c) (h ! i ! 0 ! c) (Suc t)"
    by (rule trajectory_pos) (simp_all add: gate_at_def candidate_at_def sigmoid_pos
        sigmoid_less_one g_pos)
  then show "0 < par_out x h w b ! i ! t ! c"
    by (simp add: par_out_trajectory [OF x w b h pos i t c])
qed

lemma positive3_seq_out:
  assumes x: "shaped3 B S Cin x" and w: "shaped2 (2 * H) Cin w" and b: "bias_ok (2 * H) b"
    and h: "shaped3 B S H h" and pos: "positive3 h"
  shows "positive3 (seq_out x h w b)"
proof (rule positive3I [OF shaped3_seq_out [OF x w b h]])
  fix i t c assume i: "i < B" and t: "t < S" and c: "c < H"
  have p: "0 < h ! i ! t ! c"
    by (rule positive3_nth [OF pos h i t c])
  have "0 < (1 - sigmoid (gate_logits x w b ! i ! t ! c)) * h ! i ! t ! c"
    using p sigmoid_less_one [of "gate_logits x w b ! i ! t ! c"] by simp
  moreover have "0 < sigmoid (gate_logits x w b ! i ! t ! c) * g (candidate_logits x w b ! i ! t ! c)"
    by (simp add: sigmoid_pos g_pos)
  ultimately show "0 < seq_out x h w b ! i ! t ! c"
    by (simp add: nth_seq_out [OF x w b h i t c])
qed

lemma mingru_shaped:
  assumes x: "shaped3 B S Cin x" and w: "shaped2 (2 * H) Cin w" and b: "bias_ok (2 * H) b"
    and h: "shaped3 B 1 H h"
  shows "mingru x h w b = Some (if 0 < B \<and> S = 1 then seq_out x h w b else par_out x h w b)"
proof (cases "B = 0")
  case True
  then have "x = []" using x by (simp add: shaped3_empty)
  then show ?thesis
    using mingru_parallel_shaped [OF x w b h] True by (simp add: mingru_def size1_def)
next
  case False
  then have "size1 x = S" using size1_shaped [OF x] by simp
  then show ?thesis
    using mingru_parallel_shaped [OF x w b h] mingru_sequential_shaped [OF x w b, of h] h False
    by (auto simp: mingru_def)
qed

lemma trajectory_le:
  assumes "h0 \<le> M" and "\<And>t. 0 < z t \<and> z t < 1" and "\<And>k. k < n \<Longrightarrow> c k \<le> M"
  shows "t \<le> n \<Longrightarrow> trajectory z c h0 t \<le> M"
proof (induction t)
  case 0
  then show ?case using assms(1) by simp
next
  case (Suc t)
  have "(1 - z t) * trajectory z c h0 t \<le> (1 - z t) * M"
    using Suc assms(2) [of t] by (intro mult_left_mono) simp_all
  moreover have "z t * c t \<le> z t * M"
    using Suc.prems assms(2) [of t] assms(3) [of t] by (intro mult_left_mono) simp_all
  ultimately have "trajectory z c h0 (Suc t) \<le> (1 - z t) * M + z t * M"
    by simp
  then show ?case by (simp add: algebra_simps)
qed

lemma bounded3_nth:
  assumes p: "bounded3 M t" and s: "shaped3 B S C t" and i: "i < B" and j: "j < S" and c: "c < C"
  shows "t ! i ! j ! c \<le> M"
proof -
  have "t ! i \<in> set t" using s i by (simp add: shaped3_nth)
  moreover have "t ! i ! j \<in> set (t ! i)" using s i j by (simp add: shaped3_nth)
  moreover have "t ! i ! j ! c \<in> set (t ! i ! j)" using s i j c by (simp add: shaped3_nth)
  ultimately show ?thesis using p unfolding bounded3_def by blast
qed

lemma bounded3I:
  assumes "shaped3 B S C t" and "\<And>i j c. i < B \<Longrightarrow> j < S \<Longrightarrow> c < C \<Longrightarrow> t ! i ! j ! c \<le> M"
  shows "bounded3 M t"
  unfolding bounded3_def
proof (intro ballI)
  fix m r v assume "m \<in> set t" "r \<in> set m" "v \<in> set r"
  then obtain i j c where "i < length t" "m = t ! i" "j < length m" "r = m ! j"
      "c < length r" "v = r ! c"
    by (auto simp: in_set_conv_nth)
  then show "v \<le> M"
    using assms by (simp add: shaped3_nth)
qed

lemma candidate_at_bounded:
  assumes x: "shaped3 B S Cin x" and w: "shaped2 (2 * H) Cin w" and b: "bias_ok (2 * H) b"
    and cb: "bounded3 M (map3 g (candidate_logits x w b))"
    and i: "i < B" and t: "t < S" and c: "c < H"
  shows "candidate_at x w b i c t \<le> M"
proof -
  note C = shaped3_candidate [OF x w b]
  have "map3 g (candidate_logits x w b) ! i ! t ! c \<le> M"
    by (rule bounded3_nth [OF cb shaped3_map3 [OF C] i t c])
  then show ?thesis
    by (simp add: nth_map3 [OF C i t c] candidate_at_def)
qed

lemma bounded3_par_out:
  assumes x: "shaped3 B S Cin x" and w: "shaped2 (2 * H) Cin w" and b: "bias_ok (2 * H) b"
    and h: "shaped3 B 1 H h" and pos: "positive3 h"
    and hb: "bounded3 M h" and cb: "bounded3 M (map3 g (candidate_logits x w b))"
  shows "bounded3 M (par_out x h w b)"
proof (rule bounded3I [OF shaped3_par_out [OF x w b h]])
  fix i t c assume i: "i < B" and t: "t < S" and c: "c < H"
  have "h ! i ! 0 ! c \<le> M"
    by (rule bounded3_nth [OF hb h i _ c]) simp
  then have "trajectory (gate_at x w b i c) (candidate_at x w b i c) (h ! i ! 0 ! c) (Suc t) \<le> M"
  proof (rule trajectory_le [where n = S])
    show "\<And>t. 0 < gate_at x w b i c t \<and> gate_at x w b i c t < 1"
      by (simp add: gate_at_def sigmoid_pos sigmoid_less_one)
    show "\<And>k. k < S \<Longrightarrow> candidate_at x w b i c k \<le> M"
      by (rule candidate_at_bounded [OF x w b cb i _ c])
    show "Suc t \<le> S" using t by simp
  qed
  then show "par_out x h w b ! i ! t ! c \<le> M"
    by (simp add: par_out_trajectory [OF x w b h pos i t c])
qed

lemma bounded3_seq_out:
  assumes x: "shaped3 B S Cin x" and w: "shaped2 (2 * H) Cin w" and b: "bias_ok (2 * H) b"
    and h: "shaped3 B S H h"
    and hb: "bounded3 M h" and cb: "bounded3 M (map3 g (candidate_logits x w b))"
  shows "bounded3 M (seq_out x h w b)"
proof (rule bounded3I [OF shaped3_seq_out [OF x w b h]])
  fix i t c assume i: "i < B" and t: "t < S" and c: "c < H"
  let ?z = "sigmoid (gate_logits x w b ! i ! t ! c)"
  have z: "0 < ?z" "?z < 1" by (simp_all add: sigmoid_pos sigmoid_less_one)
  have "h ! i ! t ! c \<le> M"
    by (rule bounded3_nth [OF hb h i t c])
  then have "(1 - ?z) * h ! i ! t ! c \<le> (1 - ?z) * M"
    using z by (intro mult_left_mono) simp_all
  moreover have "g (candidate_logits x w b ! i ! t ! c) \<le> M"
    using candidate_at_bounded [OF x w b cb i t c] by (simp add: candidate_at_def)
  then have "?z * g (candidate_logits x w b ! i ! t ! c) \<le> ?z * M"
    using z by (intro mult_left_mono) simp_all
  ultimately have "seq_out x h w b ! i ! t ! c \<le> (1 - ?z) * M + ?z * M"
    by (simp add: nth_seq_out [OF x w b h i t c])
  then show "seq_out x h w b ! i ! t ! c \<le> M"
    by (simp add: algebra_simps)
qed

text \<open>
  Over the reals, for every input of the documented shapes and every strictly positive
  initial state, each evaluation (one step for a sequence of length 1, the scan, and the
  dispatcher over them) returns a sequence of hidden states whose elements are all
  strictly positive, whatever the gate and candidate logits are; what the dispatcher
  returns moreover stays below every bound on the initial state and the candidate states
  \<open>g candidate\<close>, each state being a convex combination of the one before and a
  candidate. This is a fact of real arithmetic: in a floating-point format a gate can
  round to 0 or 1 and a candidate state can underflow to 0, which is not part of it.
\<close>

lemma mingru_hidden_states_positive:
  assumes x: "shaped3 B S Cin x" and w: "shaped2 (2 * H) Cin w" and b: "bias_ok (2 * H) b"
    and h: "shaped3 B 1 H h" and pos: "positive3 h"
  shows "(S = 1 \<longrightarrow> (\<exists>r. mingru_sequential x h w b = Some r \<and> shaped3 B S H r \<and> positive3 r))
       \<and> (\<exists>r. mingru_parallel x h w b = Some r \<and> shaped3 B S H r \<and> positive3 r)
       \<and> (\<exists>r. mingru x h w b = Some r \<and> shaped3 B S H r \<and> positive3 r
              \<and> (\<forall>M. bounded3 M h \<and> bounded3 M (map3 g (candidate_logits x w b))
                     \<longrightarrow> bounded3 M r))"
proof -
  have par: "mingru_parallel x h w b = Some (par_out x h w b)"
    "shaped3 B S H (par_out x h w b)" "positive3 (par_out x h w b)"
    by (rule mingru_parallel_shaped [OF x w b h], rule shaped3_par_out [OF x w b h],
        rule positive3_par_out [OF x w b h pos])
  have seq: "mingru_sequential x h w b = Some (seq_out x h w b)"
    "shaped3 B S H (seq_out x h w b)" "positive3 (seq_out x h w b)" if "S = 1"
    using that mingru_sequential_shaped [OF x w b, of h] shaped3_seq_out [OF x w b, of h]
      positive3_seq_out [OF x w b, of h] h pos by simp_all
  have bp: "bounded3 M (par_out x h w b)"
    if "bounded3 M h" "bounded3 M (map3 g (candidate_logits x w b))" for M
    by (rule bounded3_par_out [OF x w b h pos that])
  have bs: "bounded3 M (seq_out x h w b)"
    if "S = 1" "bounded3 M h" "bounded3 M (map3 g (candidate_logits x w b))" for M
    using bounded3_seq_out [OF x w b _ that(2,3)] h that(1) by simp
  show ?thesis
    using par seq bp bs by (simp add: mingru_shaped [OF x w b h])
qed

lemma mingru_hidden_states_positive_example:
  "shaped3 1 2 1 [[[1], [- 1]]] \<and> shaped2 (2 * 1) 1 [[50], [50]] \<and> bias_ok (2 * 1) None
   \<and> shaped3 1 1 1 [[[1]]] \<and> positive3 [[[1]]]
   \<and> gate_logits [[[1], [- 1]]] [[50], [50]] None = [[[50], [- 50]]]
   \<and> candidate_logits [[[1], [- 1]]] [[50], [50]] None = [[[50], [- 50]]]
   \<and> bounded3 (101 / 2) [[[1]]]
   \<and> bounded3 (101 / 2) (map3 g (candidate_logits [[[1], [- 1]]] [[50], [50]] None))
   \<and> (\<exists>r. mingru [[[1], [- 1]]] [[[1]]] [[50], [50]] None = Some r \<and> shaped3 1 2 1 r
          \<and> positive3 r \<and> bounded3 (101 / 2) r)"
proof -
  have hyp: "shaped3 1 2 1 [[[1], [- 1]]]" "shaped2 (2 * 1) 1 [[50], [50]]"
    "bias_ok (2 * 1) None" "shaped3 1 1 1 [[[1]]]" "positive3 [[[1]]]"
    by (simp_all add: shaped3_def shaped2_def bias_ok_def positive3_def)
  have lg: "gate_logits [[[1], [- 1]]] [[50], [50]] None = [[[50], [- 50]]]"
    "candidate_logits [[[1], [- 1]]] [[50], [50]] None = [[[50], [- 50]]]"
    by (simp_all add: gate_logits_def candidate_logits_def linear_row_def dot_def)
  have "sigmoid (- 50) \<le> 101 / 2"
    using sigmoid_less_one [of "- 50"] by simp
  then have bd: "bounded3 (101 / 2) [[[1]]]"
    "bounded3 (101 / 2) (map3 g (candidate_logits [[[1], [- 1]]] [[50], [50]] None))"
    by (simp_all add: bounded3_def lg map3_def g_def)
  from mingru_hidden_states_positive [OF hyp] hyp lg bd show ?thesis
    by blast
qed



section \<open>Dispatch\<close>

text \<open>
  C5. With \<open>S\<close> the extent \<^verbatim>\<open>x.shape[1]\<close> of the time axis: when \<open>S = 1\<close> the dispatcher
  \<open>mingru\<close> is one call of the sequential step on \<open>x\<close> and \<open>h\<close>, and for every other
  \<open>S\<close>, so for every \<open>S > 1\<close>, it is the parallel scan over the whole sequence;
  \<open>conv_mingru\<close> dispatches in the same way.
\<close>

theorem dispatch_on_sequence_length:
  "(size1 x = 1 \<longrightarrow> mingru x h w b = mingru_sequential x h w b)
   \<and> (size1 x \<noteq> 1 \<longrightarrow> mingru x h w b = mingru_parallel x h w b)
   \<and> (shape1 x' = 1 \<longrightarrow> conv_mingru x' h' w' b = conv_mingru_sequential x' h' w' b)
   \<and> (shape1 x' \<noteq> 1 \<longrightarrow> conv_mingru x' h' w' b = conv_mingru_parallel x' h' w' b)"
  by (simp add: mingru_def conv_mingru_def)

theorem dispatch_on_sequence_length_witness:
  "size1 [[[1::real]]] = 1 \<and> size1 [[[1::real], [1]]] \<noteq> 1
   \<and> shape1 \<lparr>shape = (1, 1, 1, 1, 1), entries = [[[[[1]]]]]\<rparr> = 1
   \<and> shape1 \<lparr>shape = (1, 2, 1, 1, 1), entries = [[[[[1]]], [[[1]]]]]\<rparr> \<noteq> 1
   \<and> mingru [[[1]]] [[[1 / 2]]] [[0], [1]] None
       = mingru_sequential [[[1]]] [[[1 / 2]]] [[0], [1]] None
   \<and> mingru [[[1], [1]]] [[[1 / 2]]] [[0], [1]] None
       = mingru_parallel [[[1], [1]]] [[[1 / 2]]] [[0], [1]] None
   \<and> conv_mingru \<lparr>shape = (1, 1, 1, 1, 1), entries = [[[[[1]]]]]\<rparr>
         \<lparr>shape = (1, 1, 1, 1, 1), entries = [[[[[1 / 2]]]]]\<rparr> [[[[0]]], [[[1]]]] None
       = conv_mingru_sequential \<lparr>shape = (1, 1, 1, 1, 1), entries = [[[[[1]]]]]\<rparr>
         \<lparr>shape = (1, 1, 1, 1, 1), entries = [[[[[1 / 2]]]]]\<rparr> [[[[0]]], [[[1]]]] None
   \<and> conv_mingru \<lparr>shape = (1, 2, 1, 1, 1), entries = [[[[[1]]], [[[1]]]]]\<rparr>
         \<lparr>shape = (1, 1, 1, 1, 1), entries = [[[[[1 / 2]]]]]\<rparr> [[[[0]]], [[[1]]]] None
       = conv_mingru_parallel \<lparr>shape = (1, 2, 1, 1, 1), entries = [[[[[1]]], [[[1]]]]]\<rparr>
         \<lparr>shape = (1, 1, 1, 1, 1), entries = [[[[[1 / 2]]]]]\<rparr> [[[[0]]], [[[1]]]] None"
  using dispatch_on_sequence_length [of "[[[1]]]" "[[[1 / 2]]]" "[[0], [1]]" None
      "\<lparr>shape = (1, 1, 1, 1, 1), entries = [[[[[1]]]]]\<rparr>"
      "\<lparr>shape = (1, 1, 1, 1, 1), entries = [[[[[1 / 2]]]]]\<rparr>" "[[[[0]]], [[[1]]]]"]
    dispatch_on_sequence_length [of "[[[1], [1]]]" "[[[1 / 2]]]" "[[0], [1]]" None
      "\<lparr>shape = (1, 2, 1, 1, 1), entries = [[[[[1]]], [[[1]]]]]\<rparr>"
      "\<lparr>shape = (1, 1, 1, 1, 1), entries = [[[[[1 / 2]]]]]\<rparr>" "[[[[0]]], [[[1]]]]"]
  by (simp add: size1_def shape1_def)


section \<open>The concrete scenario\<close>

text \<open>
  C6. Batch 1, hidden width 1, \<open>S = 3\<close>: the input \<open>1\<close> at every step with weights \<open>0\<close>
  (gate) and \<open>1\<close> (candidate) gives gate logits \<open>[0, 0, 0]\<close> and candidate logits
  \<open>[1, 1, 1]\<close>; from \<open>h0 = g 0 = 0.5\<close> the parallel evaluation returns the trajectory
  \<open>[1.0, 1.25, 1.375]\<close>, exactly.
\<close>

theorem parallel_concrete_scenario:
  "gate_logits [[[1], [1], [1]]] [[0], [1]] None = [[[0], [0], [0]]]
   \<and> candidate_logits [[[1], [1], [1]]] [[0], [1]] None = [[[1], [1], [1]]]
   \<and> g 0 = 0.5 \<and> g 1 = 1.5 \<and> sigmoid 0 = 0.5
   \<and> mingru_parallel [[[1], [1], [1]]] [[[g 0]]] [[0], [1]] None = Some [[[1.0], [1.25], [1.375]]]
   \<and> mingru [[[1], [1], [1]]] [[[g 0]]] [[0], [1]] None = Some [[[1.0], [1.25], [1.375]]]"
proof -
  have g0: "g 0 = 1 / 2" by (simp add: g_def)
  have hyp: "shaped3 1 3 1 [[[1], [1], [1]]]" "shaped2 (2 * 1) 1 [[0], [1]]"
    "bias_ok (2 * 1) None" "shaped3 1 1 1 [[[1 / 2]]]" "positive3 [[[1 / 2]]]"
    by (simp_all add: shaped3_def shaped2_def bias_ok_def positive3_def)
  have s: "sequential_steps [[[1], [1], [1]]] [[[1 / 2]]] [[0], [1]] None
           = Some [[[1], [5 / 4], [11 / 8]]]"
    by (simp add: sequential_steps_def size1_def cat_states_def time_slice_def
        mingru_sequential_def eval_defs)
  have p: "mingru_parallel [[[1], [1], [1]]] [[[1 / 2]]] [[0], [1]] None
           = Some [[[1], [5 / 4], [11 / 8]]]"
    using parallel_matches_steps [OF hyp] s by simp
  have m: "mingru [[[1], [1], [1]]] [[[1 / 2]]] [[0], [1]] None
           = mingru_parallel [[[1], [1], [1]]] [[[1 / 2]]] [[0], [1]] None"
    by (simp add: mingru_def size1_def)
  show ?thesis
    using p m by (simp add: g0 gate_logits_def candidate_logits_def linear_row_def dot_def
        g_def sigmoid_def)
qed


section \<open>Inputs the specification calls invalid\<close>

text \<open>
  C8, as stated, fails: an initial hidden state with the element \<open>- 1\<close> is accepted, and
  the dispatcher returns a state, here the non-positive \<open>- 1 / 4\<close>, instead of raising.
\<close>

theorem mingru_nonpositive_state_counterexample:
  "\<not> positive3 [[[- 1]]] \<and> size1 [[[0::real]]] = 1
   \<and> mingru [[[0]]] [[[- 1]]] [[0], [0]] None = Some [[[- 1 / 4]]]"
  by (simp add: positive3_def size1_def mingru_def mingru_sequential_def eval_defs)

text \<open>
  C8, amended. The evaluation entry point makes no check of the sign of the initial
  hidden state: on inputs of the documented shapes it returns a sequence of states
  whatever the elements of \<open>h\<close> are, and for a sequence of length 1 the state returned
  is the one-step update \<open>(1 - z) * h + z * g candidate\<close> of the given \<open>h\<close>.
\<close>

theorem mingru_state_sign_unchecked:
  assumes x: "shaped3 B S Cin x" and w: "shaped2 (2 * H) Cin w" and b: "bias_ok (2 * H) b"
    and h: "shaped3 B 1 H h"
  shows "(\<exists>r. mingru x h w b = Some r \<and> shaped3 B S H r)
       \<and> (0 < B \<and> S = 1 \<longrightarrow> mingru x h w b = Some (seq_out x h w b)
            \<and> (\<forall>i<B. \<forall>c<H. seq_out x h w b ! i ! 0 ! c
                  = (1 - gate_at x w b i c 0) * h ! i ! 0 ! c
                    + gate_at x w b i c 0 * candidate_at x w b i c 0))"
proof -
  have "shaped3 B S H (if 0 < B \<and> S = 1 then seq_out x h w b else par_out x h w b)"
    using shaped3_seq_out [OF x w b, of h] shaped3_par_out [OF x w b h] h by auto
  moreover have "seq_out x h w b ! i ! 0 ! c
                  = (1 - gate_at x w b i c 0) * h ! i ! 0 ! c
                    + gate_at x w b i c 0 * candidate_at x w b i c 0"
    if "S = 1" "i < B" "c < H" for i c
    using nth_seq_out [OF x w b, of h i 0 c] h that by (simp add: gate_at_def candidate_at_def)
  ultimately show ?thesis
    by (simp add: mingru_shaped [OF x w b h])
qed

theorem mingru_state_sign_unchecked_witness:
  "shaped3 1 1 1 [[[0]]] \<and> shaped2 (2 * 1) 1 [[0], [0]] \<and> bias_ok (2 * 1) None
   \<and> shaped3 1 1 1 [[[- 1]]] \<and> (0::nat) < 1
   \<and> mingru [[[0]]] [[[- 1]]] [[0], [0]] None = Some (seq_out [[[0]]] [[[- 1]]] [[0], [0]] None)
   \<and> seq_out [[[0]]] [[[- 1]]] [[0], [0]] None ! 0 ! 0 ! 0 = - 1 / 4"
proof -
  have hyp: "shaped3 1 1 1 [[[0]]]" "shaped2 (2 * 1) 1 [[0], [0]]" "bias_ok (2 * 1) None"
    "shaped3 1 1 1 [[[- 1]]]"
    by (simp_all add: shaped3_def shaped2_def bias_ok_def)
  have "gate_at [[[0]]] [[0], [0]] None 0 0 0 = 1 / 2"
    "candidate_at [[[0]]] [[0], [0]] None 0 0 0 = 1 / 2"
    by (simp_all add: gate_at_def candidate_at_def gate_logits_def candidate_logits_def
        linear_row_def dot_def sigmoid_def g_def)
  with mingru_state_sign_unchecked [OF hyp] hyp show ?thesis
    by simp
qed


text \<open>
  Neither entry point tests for an empty time axis. With \<open>S = 0\<close> the linear map or the
  convolution runs on no time step at all, the two chunks and the logarithms of the gate
  and the candidate are empty, and the scan is called with no log-coefficient and with
  the logarithm of the initial state as its only log-value.
\<close>

lemma shaped3_zero_time: "shaped3 B 0 C x \<longleftrightarrow> x = replicate B []"
proof
  assume "shaped3 B 0 C x"
  then have "length x = B" and "\<And>y. y \<in> set x \<Longrightarrow> y = []"
    by (simp_all add: shaped3_def shaped2_def)
  then show "x = replicate B []" by (rule replicate_eqI)
next
  assume "x = replicate B []"
  then show "shaped3 B 0 C x" by (simp add: shaped3_def shaped2_def)
qed

lemma map_const_replicate: "map (\<lambda>_. c) xs = replicate (length xs) c"
  by (induction xs) simp_all

lemma bind_Some_map_option: "m \<bind> (\<lambda>r. Some (f r)) = map_option f m"
  by (cases m) simp_all

lemma mingru_parallel_reaches_scan:
  assumes x: "shaped3 B 0 Cin x" and w: "shaped2 (2 * H) Cin w" and b: "bias_ok (2 * H) b"
    and h: "shaped3 B 1 H h"
  shows "mingru_parallel x h w b
         = map_option (map (drop 1)) (parallel_scan_log (replicate B []) (map3 ln h))"
proof -
  have xe: "x = replicate B []" using x by (simp add: shaped3_zero_time)
  have lw: "length w = 2 * H" using w by (simp add: shaped2_def)
  have lh: "length h = B" using h by (simp add: shaped3_def)
  have lin: "F_linear (replicate B []) w b = Some (replicate B [])"
    using b by (simp add: F_linear_def lw)
  have chunk: "chunk_dim2 (replicate B ([] :: real list list)) = Some (replicate B [], replicate B [])"
    by (simp add: chunk_dim2_def)
  have m3: "map3 f (replicate B []) = replicate B []" for f
    by (simp add: map3_def)
  have add: "add3 (replicate B []) (replicate B []) = Some (replicate B [])"
    by (auto simp: add3_def zip_with3_def same_shape3_def list_all2_conv_all_nth
        intro!: nth_equalityI)
  have "map2 (@) (map3 ln h) (replicate B []) = map3 ln h"
    using lh by (auto simp: map3_def intro!: nth_equalityI)
  moreover have "list_all2 (\<lambda>p q. \<forall>u\<in>set p. \<forall>v\<in>set q. length u = length v)
                   (map3 ln h) (replicate B [])"
    using lh by (simp add: list_all2_conv_all_nth map3_def)
  ultimately have cat: "cat1 (map3 ln h) (replicate B []) = Some (map3 ln h)"
    by (simp add: cat1_def)
  show ?thesis
    by (simp add: mingru_parallel_def xe lin chunk m3 add cat Let_def bind_Some_map_option)
qed

lemma conv_mingru_parallel_reaches_scan:
  assumes sx: "shape x = (B, 0, Cin, Ht, Wd)" and ex: "shaped5 B 0 Cin Ht Wd (entries x)"
    and sh: "shape h = (B, 1, H, Ht, Wd)" and eh: "shaped5 B 1 H Ht Wd (entries h)"
    and w: "shaped4 (2 * H) Cin k1 k2 w" and k1: "0 < k1" and k2: "0 < k2"
    and b: "bias_ok (2 * H) b" and H: "0 < H" and Ht: "0 < Ht" and Wd: "0 < Wd"
  shows "conv_mingru_parallel x h w b
         = map_option tail1
             (parallel_scan_log_spatial
                \<lparr>shape = (B, 0, H, Ht, Wd), entries = replicate B []\<rparr>
                (on_entries (map5 ln) h))"
proof -
  have "length (entries x) = B" and "\<And>y. y \<in> set (entries x) \<Longrightarrow> y = []"
    using ex by (simp_all add: shaped5_def shaped4_def)
  then have xe: "entries x = replicate B []" by (rule replicate_eqI)
  have lw: "length w = 2 * H" using w by (simp add: shaped4_def)
  have ker: "shaped2 k1 k2 k" if "ker \<in> set w" "k \<in> set ker" for ker k
    using w that by (auto simp: shaped4_def shaped3_def)
  have c1: "\<forall>ker\<in>set w. length ker = Cin"
    using w by (auto simp: shaped4_def shaped3_def)
  have c2: "\<forall>ker\<in>set w. \<forall>k\<in>set ker. k \<noteq> [] \<and> (\<forall>r\<in>set k. r \<noteq> [])"
    using ker k1 k2 by (fastforce simp: shaped2_def)
  have c3: "w \<noteq> []" using lw H by auto
  have conv: "F_conv2d_same (view4 0 Cin Ht Wd x) w b
              = Some \<lparr>shape = (0, 2 * H, Ht, Wd), entries = []\<rparr>"
    using c1 c2 c3 b Ht Wd by (simp add: F_conv2d_same_def view4_def xe lw)
  have view: "view5 B 0 (shape2 h * 2) Ht Wd \<lparr>shape = (0, 2 * H, Ht, Wd), entries = []\<rparr>
              = Some \<lparr>shape = (B, 0, H * 2, Ht, Wd), entries = replicate B []\<rparr>"
    using map_const_replicate [of "[]" "[0..<B]"] sh by (simp add: view5_def shape2_def)
  have chunk: "chunk_channels5 \<lparr>shape = (B, 0, H * 2, Ht, Wd), entries = replicate B []\<rparr>
               = Some (\<lparr>shape = (B, 0, H, Ht, Wd), entries = replicate B []\<rparr>,
                       \<lparr>shape = (B, 0, H, Ht, Wd), entries = replicate B []\<rparr>)"
    using H by (simp add: chunk_channels5_def Let_def)
  have on: "on_entries (map5 f) \<lparr>shape = (B, 0, H, Ht, Wd), entries = replicate B []\<rparr>
            = \<lparr>shape = (B, 0, H, Ht, Wd), entries = replicate B []\<rparr>" for f
    by (simp add: on_entries_def map5_def map4_def)
  have add: "add5 \<lparr>shape = (B, 0, H, Ht, Wd), entries = replicate B []\<rparr>
               \<lparr>shape = (B, 0, H, Ht, Wd), entries = replicate B []\<rparr>
             = Some \<lparr>shape = (B, 0, H, Ht, Wd), entries = replicate B []\<rparr>"
    by (auto simp: add5_def zip_entries_def intro!: nth_equalityI)
  have lh: "length (entries h) = B" using eh by (simp add: shaped5_def)
  have "map2 (@) (map5 ln (entries h)) (replicate B []) = map5 ln (entries h)"
    using lh by (auto simp: map5_def intro!: nth_equalityI)
  then have cat: "cat1_spatial (on_entries (map5 ln) h)
                    \<lparr>shape = (B, 0, H, Ht, Wd), entries = replicate B []\<rparr>
                  = Some (on_entries (map5 ln) h)"
    using sh by (simp add: cat1_spatial_def on_entries_def)
  show ?thesis
    using sx
    by (simp add: conv_mingru_parallel_def conv view chunk on add cat Let_def
        bind_Some_map_option)
qed

text \<open>
  C7, as stated, fails: on an input whose time axis has length 0 neither entry point
  raises on its own. Each one is the call of the scan on the empty log-coefficients and
  the logarithm of the initial state, followed by the slice \<^verbatim>\<open>h[:, 1:]\<close>; with the scan of
  the specification, both return the empty sequence of hidden states.
\<close>

theorem zero_length_sequence_counterexample:
  "size1 [[] :: real list list] = 0
   \<and> mingru [[]] [[[1 / 2]]] [[0], [1]] None
       = map_option (map (drop 1)) (parallel_scan_log [[]] (map3 ln [[[1 / 2]]]))
   \<and> mingru [[]] [[[1 / 2]]] [[0], [1]] None = Some [[]]
   \<and> shape1 \<lparr>shape = (1, 0, 1, 1, 1), entries = [[]]\<rparr> = 0
   \<and> conv_mingru \<lparr>shape = (1, 0, 1, 1, 1), entries = [[]]\<rparr>
         \<lparr>shape = (1, 1, 1, 1, 1), entries = [[[[[1 / 2]]]]]\<rparr> [[[[0]]], [[[1]]]] None
       = map_option tail1
           (parallel_scan_log_spatial \<lparr>shape = (1, 0, 1, 1, 1), entries = [[]]\<rparr>
              (on_entries (map5 ln)
                 \<lparr>shape = (1, 1, 1, 1, 1), entries = [[[[[1 / 2]]]]]\<rparr>))
   \<and> conv_mingru \<lparr>shape = (1, 0, 1, 1, 1), entries = [[]]\<rparr>
         \<lparr>shape = (1, 1, 1, 1, 1), entries = [[[[[1 / 2]]]]]\<rparr> [[[[0]]], [[[1]]]] None
       = Some \<lparr>shape = (1, 0, 1, 1, 1), entries = [[]]\<rparr>"
proof -
  let ?x = "\<lparr>shape = (1 :: nat, 0 :: nat, 1 :: nat, 1 :: nat, 1 :: nat),
            entries = [[]] :: tensor5\<rparr>"
  let ?h = "\<lparr>shape = (1 :: nat, 1 :: nat, 1 :: nat, 1 :: nat, 1 :: nat),
            entries = [[[[[1 / 2 :: real]]]]]\<rparr>"
  have hyp: "shaped3 1 0 1 [[]]" "shaped2 (2 * 1) 1 [[0], [1]]" "bias_ok (2 * 1) None"
    "shaped3 1 1 1 [[[1 / 2]]]"
    by (simp_all add: shaped3_def shaped2_def bias_ok_def)
  have hyp': "shape ?x = (1, 0, 1, 1, 1)" "shaped5 1 0 1 1 1 (entries ?x)"
    "shape ?h = (1, 1, 1, 1, 1)" "shaped5 1 1 1 1 1 (entries ?h)"
    "shaped4 (2 * 1) 1 1 1 [[[[0]]], [[[1]]]]" "(0::nat) < 1" "(0::nat) < 1"
    "bias_ok (2 * 1) None" "(0::nat) < 1" "(0::nat) < 1" "(0::nat) < 1"
    by (simp_all add: shaped5_def shaped4_def shaped3_def shaped2_def bias_ok_def)
  have a: "mingru_parallel [[]] [[[1 / 2]]] [[0], [1]] None
           = map_option (map (drop 1)) (parallel_scan_log [[]] (map3 ln [[[1 / 2]]]))"
    using mingru_parallel_reaches_scan [OF hyp] by simp
  have a': "mingru_parallel [[]] [[[1 / 2]]] [[0], [1]] None = Some [[]]"
    by (simp add: mingru_parallel_def F_linear_def chunk_dim2_def map3_def
        add3_def zip_with3_def same_shape3_def cat1_def parallel_scan_log_def scan_batch_def
        bias_ok_def)
  have b: "conv_mingru_parallel ?x ?h [[[[0]]], [[[1]]]] None
           = map_option tail1
               (parallel_scan_log_spatial \<lparr>shape = (1, 0, 1, 1, 1), entries = [[]]\<rparr>
                  (on_entries (map5 ln) ?h))"
    using conv_mingru_parallel_reaches_scan [OF hyp'] by simp
  have b': "conv_mingru_parallel ?x ?h [[[[0]]], [[[1]]]] None
            = Some \<lparr>shape = (1, 0, 1, 1, 1), entries = [[]]\<rparr>"
    by (simp add: conv_mingru_parallel_def F_conv2d_same_def view4_def shape2_def
        view5_def chunk_channels5_def on_entries_def map5_def map4_def map3_def add5_def
        zip_entries_def cat1_spatial_def tail1_def
        parallel_scan_log_spatial_def parallel_scan_log_def scan_batch_def flatten_step_def
        bias_ok_def Let_def)
  have s: "size1 [[] :: real list list] = 0" "shape1 ?x = 0"
    by (simp_all add: size1_def shape1_def)
  have m: "mingru [[]] [[[1 / 2]]] [[0], [1]] None
           = mingru_parallel [[]] [[[1 / 2]]] [[0], [1]] None"
    "conv_mingru ?x ?h [[[[0]]], [[[1]]]] None
     = conv_mingru_parallel ?x ?h [[[[0]]], [[[1]]]] None"
    by (simp_all add: mingru_def conv_mingru_def size1_def shape1_def)
  show ?thesis
    unfolding m by (intro conjI s a a' b b')
qed

text \<open>
  C7, amended. For every input of the documented shapes whose time axis has length 0,
  \<open>mingru\<close> and \<open>conv_mingru\<close> make no check of the length: the length is not 1, so they
  take the parallel branch, every step of which up to the scan succeeds, and what they
  return is what the scan returns on no log-coefficient and the logarithm of the initial
  state, with the initial slot dropped. The feature maps of \<open>conv_mingru\<close> have at least
  one row, one column and one hidden channel.
\<close>

theorem zero_length_sequence_reaches_scan:
  assumes "shaped3 B 0 Cin x" and "shaped2 (2 * H) Cin w" and "bias_ok (2 * H) b"
    and "shaped3 B 1 H h"
    and "shape x' = (B, 0, Cin', Ht, Wd)" and "shaped5 B 0 Cin' Ht Wd (entries x')"
    and "shape h' = (B, 1, H', Ht, Wd)" and "shaped5 B 1 H' Ht Wd (entries h')"
    and "shaped4 (2 * H') Cin' k1 k2 w'" and "0 < k1" and "0 < k2" and "bias_ok (2 * H') b'"
    and "0 < H'" and "0 < Ht" and "0 < Wd"
  shows "size1 x \<noteq> 1 \<and> mingru x h w b = mingru_parallel x h w b
         \<and> mingru x h w b
             = map_option (map (drop 1)) (parallel_scan_log (replicate B []) (map3 ln h))
         \<and> shape1 x' \<noteq> 1 \<and> conv_mingru x' h' w' b' = conv_mingru_parallel x' h' w' b'
         \<and> conv_mingru x' h' w' b'
             = map_option tail1
                 (parallel_scan_log_spatial
                    \<lparr>shape = (B, 0, H', Ht, Wd), entries = replicate B []\<rparr>
                    (on_entries (map5 ln) h'))"
proof -
  have s: "size1 x \<noteq> 1"
    using assms(1) by (cases x) (auto simp: size1_def shaped3_def shaped2_def)
  have s': "shape1 x' \<noteq> 1"
    using assms(5) by (simp add: shape1_def)
  show ?thesis
    using s s' mingru_parallel_reaches_scan [OF assms(1-4)]
      conv_mingru_parallel_reaches_scan [OF assms(5-15)]
    by (simp add: mingru_def conv_mingru_def)
qed

theorem zero_length_sequence_reaches_scan_witness:
  "shaped3 2 0 1 [[], []] \<and> shaped2 (2 * 1) 1 [[0], [1]] \<and> bias_ok (2 * 1) None
   \<and> shaped3 2 1 1 [[[1]], [[2]]]
   \<and> shaped5 2 0 1 1 1 [[], []] \<and> shaped5 2 1 1 1 1 [[[[[1]]]], [[[[2]]]]]
   \<and> shaped4 (2 * 1) 1 1 1 [[[[0]]], [[[1]]]] \<and> (0::nat) < 1
   \<and> size1 [[] :: real list list, []] \<noteq> 1
   \<and> mingru [[], []] [[[1]], [[2]]] [[0], [1]] None
       = mingru_parallel [[], []] [[[1]], [[2]]] [[0], [1]] None
   \<and> mingru [[], []] [[[1]], [[2]]] [[0], [1]] None
       = map_option (map (drop 1)) (parallel_scan_log [[], []] (map3 ln [[[1]], [[2]]]))
   \<and> conv_mingru \<lparr>shape = (2, 0, 1, 1, 1), entries = [[], []]\<rparr>
         \<lparr>shape = (2, 1, 1, 1, 1), entries = [[[[[1]]]], [[[[2]]]]]\<rparr> [[[[0]]], [[[1]]]] None
       = conv_mingru_parallel \<lparr>shape = (2, 0, 1, 1, 1), entries = [[], []]\<rparr>
         \<lparr>shape = (2, 1, 1, 1, 1), entries = [[[[[1]]]], [[[[2]]]]]\<rparr> [[[[0]]], [[[1]]]] None
   \<and> conv_mingru \<lparr>shape = (2, 0, 1, 1, 1), entries = [[], []]\<rparr>
         \<lparr>shape = (2, 1, 1, 1, 1), entries = [[[[[1]]]], [[[[2]]]]]\<rparr> [[[[0]]], [[[1]]]] None
       = map_option tail1
           (parallel_scan_log_spatial \<lparr>shape = (2, 0, 1, 1, 1), entries = [[], []]\<rparr>
              (on_entries (map5 ln)
                 \<lparr>shape = (2, 1, 1, 1, 1), entries = [[[[[1]]]], [[[[2]]]]]\<rparr>))"
proof -
  have hyp: "shaped3 2 0 1 [[], []]" "shaped2 (2 * 1) 1 [[0], [1]]" "bias_ok (2 * 1) None"
    "shaped3 2 1 1 [[[1]], [[2]]]"
    "shape \<lparr>shape = (2, 0, 1, 1, 1), entries = [[], []]\<rparr> = (2, 0, 1, 1, 1)"
    "shaped5 2 0 1 1 1 (entries \<lparr>shape = (2::nat, 0::nat, 1::nat, 1::nat, 1::nat), entries = [[], []]\<rparr>)"
    "shape \<lparr>shape = (2, 1, 1, 1, 1), entries = [[[[[1]]]], [[[[2]]]]]\<rparr> = (2, 1, 1, 1, 1)"
    "shaped5 2 1 1 1 1 (entries \<lparr>shape = (2::nat, 1::nat, 1::nat, 1::nat, 1::nat), entries = [[[[[1]]]], [[[[2]]]]]\<rparr>)"
    "shaped4 (2 * 1) 1 1 1 [[[[0]]], [[[1]]]]" "(0::nat) < 1" "(0::nat) < 1" "bias_ok (2 * 1) None"
    "(0::nat) < 1" "(0::nat) < 1" "(0::nat) < 1"
    by (simp_all add: shaped5_def shaped4_def shaped3_def shaped2_def bias_ok_def)
  have rep: "replicate 2 [] = [[], [] :: 'a list]"
    by (simp add: numeral_2_eq_2)
  note hyp' = hyp(1-4,6,8-10) [simplified torch_tensor.simps]
  from zero_length_sequence_reaches_scan [OF hyp, unfolded rep] hyp' show ?thesis
    by blast
qed


section \<open>The default hidden state of the module\<close>

lemma init_hidden_state_nth:
  assumes "k < length (layer_sizes m) - 1"
  shows "init_hidden_state m x ! k
         = replicate (length x) [replicate (layer_sizes m ! Suc k) (1 / 2)]"
  using assms by (simp add: init_hidden_state_def new_zeros_def map3_def g_def)

lemma shaped3_replicate: "shaped3 B S C (replicate B (replicate S (replicate C v)))"
  by (simp add: shaped3_def shaped2_def)

lemma positive3_replicate: "0 < v \<Longrightarrow> positive3 (replicate B (replicate S (replicate C v)))"
  by (simp add: positive3_def)

text \<open>
  C10. When \<^verbatim>\<open>forward\<close> is called without hidden states it evaluates exactly as if the list
  \<open>init_hidden_state m x\<close> had been passed; that list holds, for each hidden size in
  \<^verbatim>\<open>layer_sizes[1:]\<close>, a tensor of shape \<open>(B, 1, hidden_size)\<close> whose every element is
  \<open>g 0 = 0.5\<close>, which is strictly positive.
\<close>

theorem forward_default_hidden_state:
  "forward m bern x None = forward m bern x (Some (init_hidden_state m x))
   \<and> length (init_hidden_state m x) = length (layer_sizes m) - 1
   \<and> g 0 = 0.5
   \<and> (\<forall>k<length (layer_sizes m) - 1.
         init_hidden_state m x ! k = replicate (length x) [replicate (layer_sizes m ! Suc k) (g 0)]
         \<and> shaped3 (length x) 1 (layer_sizes m ! Suc k) (init_hidden_state m x ! k)
         \<and> positive3 (init_hidden_state m x ! k))"
proof -
  have g0: "g 0 = 1 / 2" by (simp add: g_def)
  have "shaped3 (length x) 1 n (replicate (length x) [replicate n (1 / 2)])" for n
    using shaped3_replicate [of "length x" 1 n "1 / 2"] by simp
  moreover have "positive3 (replicate (length x) [replicate n (1 / 2)])" for n :: nat
    using positive3_replicate [of "1 / 2" "length x" 1 n] by simp
  ultimately have c: "\<forall>k<length (layer_sizes m) - 1.
         init_hidden_state m x ! k = replicate (length x) [replicate (layer_sizes m ! Suc k) (g 0)]
         \<and> shaped3 (length x) 1 (layer_sizes m ! Suc k) (init_hidden_state m x ! k)
         \<and> positive3 (init_hidden_state m x ! k)"
    by (simp add: init_hidden_state_nth g0)
  have a: "forward m bern x None = forward m bern x (Some (init_hidden_state m x))"
    by (simp add: forward_def split: list.splits)
  have b: "length (init_hidden_state m x) = length (layer_sizes m) - 1"
    by (simp add: init_hidden_state_def)
  have d: "g 0 = 0.5" by (simp add: g_def)
  show ?thesis
    using a b c d by blast
qed

theorem forward_default_hidden_state_witness:
  "init_hidden_state
     \<lparr>layer_sizes = [1, 1], num_layers = 1, gate_hidden_layers = [([[0], [1]], None)],
      align_layers = [], dropout = 0, residual = False\<rparr> [[[1]]] = [[[[1 / 2]]]]
   \<and> forward
     \<lparr>layer_sizes = [1, 1], num_layers = 1, gate_hidden_layers = [([[0], [1]], None)],
      align_layers = [], dropout = 0, residual = False\<rparr> (\<lambda>lidx p. p) [[[1]]] None
     = forward
     \<lparr>layer_sizes = [1, 1], num_layers = 1, gate_hidden_layers = [([[0], [1]], None)],
      align_layers = [], dropout = 0, residual = False\<rparr> (\<lambda>lidx p. p) [[[1]]] (Some [[[[1 / 2]]]])
   \<and> forward
     \<lparr>layer_sizes = [1, 1], num_layers = 1, gate_hidden_layers = [([[0], [1]], None)],
      align_layers = [], dropout = 0, residual = False\<rparr> (\<lambda>lidx p. p) [[[1]]] None
     = Some ([[[1]]], [[[[1]]]])"
proof -
  let ?m = "\<lparr>layer_sizes = [1, 1], num_layers = 1, gate_hidden_layers = [([[0], [1]], None)],
      align_layers = [], dropout = 0, residual = False\<rparr>"
  have i: "init_hidden_state ?m [[[1]]] = [[[[1 / 2]]]]"
    by (simp add: init_hidden_state_def new_zeros_def map3_def g_def)
  have f: "forward ?m (\<lambda>lidx p. p) [[[1]]] (Some [[[[1 / 2]]]]) = Some ([[[1]]], [[[[1]]]])"
    by (simp add: forward_def size2_def size1_def mingru_def mingru_sequential_def eval_defs)
  from forward_default_hidden_state [of ?m "\<lambda>lidx p. p" "[[[1]]]"] i f show ?thesis
    by simp
qed


section \<open>The spatial variant on feature maps of one pixel\<close>

text \<open>
  On maps of one pixel the padded plane is zero outside its centre, so the convolution
  reads one entry of every kernel, the entry \<open>((k1 - 1) div 2, (k2 - 1) div 2)\<close>, and is
  the linear map with these weights. Every later step is elementwise or along the time
  axis, and commutes with the embedding of channel tensors as maps of one pixel.
\<close>

lemma spatial_map_spatial4: "spatial t = map spatial4 t"
  by (simp add: spatial_def spatial4_def)

lemma concat_spatial: "concat (spatial x) = spatial4 (concat x)"
  by (simp add: spatial_def spatial4_def map_concat)

lemma map5_spatial: "map5 f (spatial t) = spatial (map3 f t)"
  by (simp add: map5_def map4_def map3_def spatial_def)

lemma map4_spatial4: "map4 f (spatial4 t) = spatial4 (map (map f) t)"
  by (simp add: map4_def map3_def spatial4_def)

lemma drop_spatial: "map (drop n) (spatial t) = spatial (map (drop n) t)"
  by (simp add: spatial_def drop_map)

lemma map2_map_map:
  "(\<And>x y. F (p x) (q y) = r (G x y)) \<Longrightarrow> map2 F (map p a) (map q b) = map r (map2 G a b)"
  by (simp add: zip_map_map split_beta)

lemma map2_pixels:
  "map2 (map2 (map2 f)) (map (\<lambda>v. [[v]]) u) (map (\<lambda>v. [[v]]) v) = map (\<lambda>v. [[v]]) (map2 f u v)"
  by (rule map2_map_map) simp

lemma map2_spatial4:
  "map2 (map2 (map2 (map2 f))) (spatial4 a) (spatial4 b) = spatial4 (map2 (map2 f) a b)"
  unfolding spatial4_def by (rule map2_map_map) (rule map2_pixels)

lemma map2_spatial:
  "map2 (map2 (map2 (map2 (map2 f)))) (spatial a) (spatial b) = spatial (map2 (map2 (map2 f)) a b)"
  unfolding spatial_map_spatial4 by (rule map2_map_map) (rule map2_spatial4)

lemma flatten_pixels: "flatten_step (map (\<lambda>v. [[v]]) r) = r"
  by (induction r) (simp_all add: flatten_step_def)

lemma flatten_spatial: "map (map flatten_step) (spatial t) = t"
proof -
  have "map flatten_step (map (map (\<lambda>v. [[v]])) m) = m" for m :: "real list list"
    by (induction m) (simp_all add: flatten_pixels)
  then have "map (map flatten_step) (map (map (map (\<lambda>v. [[v]]))) t) = t"
    by (induction t) simp_all
  then show ?thesis by (simp add: spatial_def)
qed

lemma sum_list_single:
  "a < n \<Longrightarrow> (\<Sum>u\<leftarrow>[0..<n]. if u = a then f u else (0::real)) = f a"
proof -
  assume a: "a < n"
  have "(\<Sum>u\<leftarrow>[0..<n]. if u = a then f u else 0) = (\<Sum>u\<in>{0..<n}. if u = a then f u else 0)"
    by (simp add: interv_sum_list_conv_sum_set_nat)
  also have "\<dots> = f a" using a by (simp add: sum.delta)
  finally show ?thesis .
qed

lemma sum_list_single_mult:
  "a < n \<Longrightarrow> (\<Sum>u\<leftarrow>[0..<n]. f u * (if u = a then x else (0::real))) = f a * x"
proof -
  assume a: "a < n"
  have "(\<Sum>u\<leftarrow>[0..<n]. f u * (if u = a then x else 0))
        = (\<Sum>u\<leftarrow>[0..<n]. if u = a then f u * x else 0)"
    by (rule arg_cong [where f = sum_list], rule map_cong) simp_all
  also have "\<dots> = f a * x" using a by (rule sum_list_single)
  finally show ?thesis .
qed

lemma padded_pixel:
  "padded pt pl [[x]] u v = (if u = pt \<and> v = pl then x else 0)"
  by (auto simp: padded_def)

lemma kernel_at_pixel:
  assumes k: "shaped2 k1 k2 k" and k1: "0 < k1" and k2: "0 < k2"
  shows "(\<Sum>u\<leftarrow>[0..<length k]. \<Sum>v\<leftarrow>[0..<length (k ! u)].
            k ! u ! v * padded ((length k - 1) div 2) ((length (k ! u) - 1) div 2) [[x]] (0 + u) (0 + v))
         = k ! ((length k - 1) div 2) ! ((length (k ! ((length k - 1) div 2)) - 1) div 2) * x"
proof -
  define pt where "pt = (k1 - 1) div 2"
  define pl where "pl = (k2 - 1) div 2"
  have lk: "length k = k1" and row: "\<And>u. u < k1 \<Longrightarrow> length (k ! u) = k2"
    using k by (simp_all add: shaped2_nth)
  have pt: "pt < k1" and pl: "pl < k2" using k1 k2 by (simp_all add: pt_def pl_def)
  have inner: "(\<Sum>v\<leftarrow>[0..<length (k ! u)].
            k ! u ! v * padded pt ((length (k ! u) - 1) div 2) [[x]] (0 + u) (0 + v))
         = (if u = pt then k ! pt ! pl * x else 0)" if u: "u < k1" for u
  proof (cases "u = pt")
    case True
    have "(\<Sum>v\<leftarrow>[0..<k2]. k ! pt ! v * (if v = pl then x else 0)) = k ! pt ! pl * x"
      using pl by (rule sum_list_single_mult)
    then show ?thesis
      using True u by (simp add: row padded_pixel pl_def)
  next
    case False
    then show ?thesis by (simp add: padded_pixel)
  qed
  have "(\<Sum>u\<leftarrow>[0..<length k]. \<Sum>v\<leftarrow>[0..<length (k ! u)].
            k ! u ! v * padded ((length k - 1) div 2) ((length (k ! u) - 1) div 2) [[x]] (0 + u) (0 + v))
        = (\<Sum>u\<leftarrow>[0..<k1]. if u = pt then k ! pt ! pl * x else 0)"
    unfolding lk pt_def [symmetric]
    by (rule arg_cong [where f = sum_list], rule map_cong) (use inner in simp_all)
  also have "\<dots> = k ! pt ! pl * x"
    using pt by (rule sum_list_single)
  finally have main: "(\<Sum>u\<leftarrow>[0..<length k]. \<Sum>v\<leftarrow>[0..<length (k ! u)].
            k ! u ! v * padded ((length k - 1) div 2) ((length (k ! u) - 1) div 2) [[x]] (0 + u) (0 + v))
        = k ! pt ! pl * x" .
  have "length (k ! pt) = k2" using row pt by simp
  then show ?thesis
    using main by (simp add: lk pt_def pl_def)
qed

lemma conv_at_pixels:
  assumes ker: "\<And>k. k \<in> set ker \<Longrightarrow> shaped2 k1 k2 k" and k1: "0 < k1" and k2: "0 < k2"
  shows "conv_at (map (\<lambda>v. [[v]]) row) ker 0 0
         = dot row (map (\<lambda>k. k ! ((length k - 1) div 2)
                              ! ((length (k ! ((length k - 1) div 2)) - 1) div 2)) ker)"
  using ker
proof (induction row arbitrary: ker)
  case Nil
  then show ?case by (simp add: conv_at_def dot_def)
next
  case (Cons x row)
  show ?case
  proof (cases ker)
    case Nil
    then show ?thesis by (simp add: conv_at_def dot_def)
  next
    case (Cons k ks)
    have k: "shaped2 k1 k2 k" using Cons.prems Cons by simp
    have "conv_at (map (\<lambda>v. [[v]]) row) ks 0 0
         = dot row (map (\<lambda>k. k ! ((length k - 1) div 2)
                              ! ((length (k ! ((length k - 1) div 2)) - 1) div 2)) ks)"
      using Cons.prems Cons by (intro Cons.IH) simp
    then show ?thesis
      using kernel_at_pixel [OF k k1 k2, of x]
      by (simp add: Cons conv_at_def dot_def mult.commute)
  qed
qed

lemma linear_row_nth_form:
  assumes "bias_ok (length w) b"
  shows "linear_row r w b = map (\<lambda>j. dot r (w ! j) + bias_at b j) [0..<length w]"
proof (cases b)
  case None
  then show ?thesis
    by (auto simp: linear_row_def bias_at_def intro!: nth_equalityI)
next
  case (Some bv)
  then have "length bv = length w" using assms by (simp add: bias_ok_def)
  then show ?thesis
    using Some by (auto simp: linear_row_def bias_at_def intro!: nth_equalityI)
qed

lemma unchunk_concat:
  "(\<And>m. m \<in> set xs \<Longrightarrow> length m = S) \<Longrightarrow>
   map (\<lambda>i. take S (drop (i * S) (concat xs))) [0..<length xs] = xs"
proof (induction xs)
  case Nil
  then show ?case by simp
next
  case (Cons m xs)
  have lm: "length m = S" using Cons.prems by simp
  have "map (\<lambda>i. take S (drop (i * S) (concat (m # xs)))) [0..<length (m # xs)]
        = take S (m @ concat xs) # map (\<lambda>i. take S (drop (Suc i * S) (m @ concat xs))) [0..<length xs]"
    by (simp add: upt_conv_Cons map_Suc_upt [symmetric] del: upt_Suc)
  also have "\<dots> = m # map (\<lambda>i. take S (drop (i * S) (concat xs))) [0..<length xs]"
    using lm by simp
  finally show ?case using Cons by simp
qed

lemma shaped2_centre_weights:
  "shaped4 R Cin k1 k2 w \<Longrightarrow> shaped2 R Cin (centre_weights w)"
  by (auto simp: shaped4_def shaped3_def shaped2_def centre_weights_def)

lemma unsqueeze1_hd:
  "(\<forall>m\<in>set x. length m = 1) \<Longrightarrow> unsqueeze1 (map hd x) = x"
proof (induction x)
  case Nil
  then show ?case by (simp add: unsqueeze1_def)
next
  case (Cons m x)
  then have "length m = 1" by simp
  then have "[hd m] = m" by (cases m) simp_all
  then show ?case using Cons by (simp add: unsqueeze1_def)
qed

lemma gate_unsqueeze1:
  "gate_logits (unsqueeze1 t) w b
   = unsqueeze1 (map (\<lambda>r. take ((length w + 1) div 2) (linear_row r w b)) t)"
  by (simp add: gate_logits_def unsqueeze1_def)

lemma candidate_unsqueeze1:
  "candidate_logits (unsqueeze1 t) w b
   = unsqueeze1 (map (\<lambda>r. drop ((length w + 1) div 2) (linear_row r w b)) t)"
  by (simp add: candidate_logits_def unsqueeze1_def)

lemma map3_unsqueeze1: "map3 f (unsqueeze1 t) = unsqueeze1 (map (map f) t)"
  by (simp add: map3_def unsqueeze1_def)

lemma map2_unsqueeze1:
  "map2 (map2 (map2 f)) (unsqueeze1 a) (unsqueeze1 b) = unsqueeze1 (map2 (map2 f) a b)"
  unfolding unsqueeze1_def by (rule map2_map_map) simp

lemma rows_of_heads:
  assumes "shaped3 B 1 C x"
  shows "\<forall>r\<in>set (map hd x). length r = C"
proof
  fix r assume "r \<in> set (map hd x)"
  then obtain m where m: "m \<in> set x" "r = hd m" by auto
  then have s: "shaped2 1 C m" using assms by (simp add: shaped3_def)
  then obtain r0 where "m = [r0]" by (cases m) (auto simp: shaped2_def)
  then show "length r = C" using s m by (simp add: shaped2_def)
qed

lemma spatial_channels:
  assumes "shaped5 B S C 1 1 t"
  shows "spatial (channels t) = t" and "shaped3 B S C (channels t)"
proof -
  have px: "[[p ! 0 ! 0]] = p" if "shaped2 1 1 p" for p :: "real list list"
  proof -
    from that obtain r where "p = [r]" "length r = 1"
      by (cases p) (auto simp: shaped2_def)
    moreover then obtain v where "r = [v]" by (cases r) auto
    ultimately show ?thesis by simp
  qed
  have "map (map (map ((\<lambda>v. [[v]]) \<circ> (\<lambda>p. p ! 0 ! 0)))) t = t"
  proof -
    have "map (map (map ((\<lambda>v. [[v]]) \<circ> (\<lambda>p. p ! 0 ! 0)))) t = map (map (map id)) t"
      using assms
      by (intro map_cong refl) (auto simp: shaped5_def shaped4_def shaped3_def intro!: px)
    then show ?thesis by (simp add: id_def [symmetric] List.map.id)
  qed
  then show "spatial (channels t) = t"
    by (simp add: spatial_def channels_def)
  show "shaped3 B S C (channels t)"
    using assms by (auto simp: channels_def shaped5_def shaped4_def shaped3_def shaped2_def)
qed

lemma unflatten_pixels: "length v = C \<Longrightarrow> unflatten_step C 1 1 v = map (\<lambda>v. [[v]]) v"
proof -
  assume l: "length v = C"
  have "unflatten_step C 1 1 v = map (\<lambda>c. [[v ! c]]) [0..<length v]"
    using l by (simp add: unflatten_step_def)
  also have "\<dots> = map (\<lambda>v. [[v]]) (map ((!) v) [0..<length v])"
    by (simp add: comp_def)
  finally show ?thesis by (simp add: map_nth)
qed

lemma scan_batch_rows:
  assumes "shaped2 (Suc S) C b"
  shows "\<forall>row\<in>set (scan_batch a b). length row = C"
proof -
  have "b \<noteq> []" using assms by (auto simp: shaped2_def)
  then have "hd b \<in> set b" by simp
  then have "length (hd b) = C" using assms by (simp add: shaped2_def)
  then show ?thesis by (auto simp: scan_batch_def Let_def)
qed

lemma unflatten_scan:
  assumes "shaped3 B S C lc" and "shaped3 B (Suc S) C lv"
  shows "map (map (unflatten_step C 1 1)) (map2 scan_batch lc lv) = spatial (map2 scan_batch lc lv)"
proof -
  have "\<forall>m\<in>set (map2 scan_batch lc lv). \<forall>row\<in>set m. length row = C"
  proof
    fix m assume "m \<in> set (map2 scan_batch lc lv)"
    then obtain a b where "m = scan_batch a b" "b \<in> set lv"
      by (auto dest: set_zip_rightD)
    moreover then have "shaped2 (Suc S) C b" using assms(2) by (simp add: shaped3_def)
    ultimately show "\<forall>row\<in>set m. length row = C" using scan_batch_rows by blast
  qed
  then have each: "map (unflatten_step C 1 1) m = map (map (\<lambda>v. [[v]])) m"
    if "m \<in> set (map2 scan_batch lc lv)" for m
    using that by (intro map_cong refl unflatten_pixels) blast
  show ?thesis
    unfolding spatial_def by (rule map_cong [OF refl]) (rule each)
qed

lemma parallel_scan_log_spatial_pixels:
  assumes lc: "shaped3 B S C lc" and lv: "shaped3 B (Suc S) C lv"
  shows "parallel_scan_log_spatial (pixel_maps B S C lc) (pixel_maps B (Suc S) C lv)
         = Some (pixel_maps B (Suc S) C (map2 scan_batch lc lv))"
  using parallel_scan_log_shaped [OF lc lv] unflatten_scan [OF lc lv]
  by (simp add: parallel_scan_log_spatial_def pixel_maps_def flatten_spatial)

lemma F_conv2d_same_pixels:
  assumes w: "shaped4 R Cin k1 k2 w" and R: "0 < R" and k1: "0 < k1" and k2: "0 < k2"
    and b: "bias_ok R b"
  shows "F_conv2d_same \<lparr>shape = (N, Cin, 1, 1), entries = spatial4 rows\<rparr> w b
         = Some \<lparr>shape = (N, R, 1, 1),
                entries = spatial4 (map (\<lambda>r. linear_row r (centre_weights w) b) rows)\<rparr>"
proof -
  have lw: "length w = R" using w by (simp add: shaped4_def)
  have ker: "shaped2 k1 k2 k" if "ker \<in> set w" "k \<in> set ker" for ker k
    using w that by (auto simp: shaped4_def shaped3_def)
  have c1: "\<forall>ker\<in>set w. length ker = Cin"
    using w by (auto simp: shaped4_def shaped3_def)
  have c2: "\<forall>ker\<in>set w. \<forall>k\<in>set ker. k \<noteq> [] \<and> (\<forall>r\<in>set k. r \<noteq> [])"
    using ker k1 k2 by (fastforce simp: shaped2_def)
  have c3: "w \<noteq> []" using lw R by auto
  have lc: "length (centre_weights w) = length w" by (simp add: centre_weights_def)
  have row: "map (\<lambda>j. [[conv_at (map (\<lambda>v. [[v]]) r) (w ! j) 0 0 + bias_at b j]]) [0..<length w]
        = map (\<lambda>v. [[v]]) (linear_row r (centre_weights w) b)" for r
  proof -
    have "conv_at (map (\<lambda>v. [[v]]) r) (w ! j) 0 0 = dot r (centre_weights w ! j)"
      if j: "j < length w" for j
    proof -
      have "w ! j \<in> set w" using j by simp
      then have "\<And>k. k \<in> set (w ! j) \<Longrightarrow> shaped2 k1 k2 k" using ker by blast
      from conv_at_pixels [OF this k1 k2, where row = r] show ?thesis
        using j by (simp add: centre_weights_def)
    qed
    then show ?thesis
      using b by (simp add: linear_row_nth_form lc lw)
  qed
  show ?thesis
    using c1 c2 c3 b row by (simp add: F_conv2d_same_def lw spatial4_def)
qed

lemma on_entries_pixel_maps:
  "on_entries (map5 f) (pixel_maps B S C t) = pixel_maps B S C (map3 f t)"
  by (simp add: on_entries_def pixel_maps_def map5_spatial)

lemma add5_pixel_maps:
  "add5 (pixel_maps B S C a) (pixel_maps B S C b)
   = Some (pixel_maps B S C (map2 (map2 (map2 (+))) a b))"
  by (simp add: add5_def zip_entries_def pixel_maps_def map2_spatial)

lemma append_spatial: "map2 (@) (spatial a) (spatial b) = spatial (map2 (@) a b)"
  unfolding spatial_def by (rule map2_map_map) simp

lemma cat1_pixel_maps:
  "cat1_spatial (pixel_maps B S C a) (pixel_maps B S' C b)
   = Some (pixel_maps B (S + S') C (map2 (@) a b))"
  by (simp add: cat1_spatial_def pixel_maps_def append_spatial)

lemma tail1_pixel_maps:
  "tail1 (pixel_maps B (Suc S) C r) = pixel_maps B S C (map (drop 1) r)"
  by (simp add: tail1_def pixel_maps_def drop_spatial)

lemma view5_pixels:
  assumes "shaped3 B S C y"
  shows "view5 B S C 1 1 \<lparr>shape = (B * S, C, 1, 1), entries = concat (spatial y)\<rparr>
         = Some (pixel_maps B S C y)"
proof -
  have "\<And>m. m \<in> set (spatial y) \<Longrightarrow> length m = S"
    using assms by (auto simp: spatial_def shaped3_def shaped2_def)
  from unchunk_concat [OF this]
  have "map (\<lambda>i. take S (drop (i * S) (concat (spatial y)))) [0..<length (spatial y)] = spatial y"
    by simp
  moreover have "length (spatial y) = B" using assms by (simp add: spatial_def shaped3_def)
  ultimately show ?thesis by (simp add: view5_def pixel_maps_def)
qed

lemma chunk_channels5_pixels:
  "chunk_channels5 (pixel_maps B S (2 * H) y)
   = (if H = 0 then Some (pixel_maps B S 0 (map (map (take 0)) y), pixel_maps B S 0 (map (map (drop 0)) y))
      else Some (pixel_maps B S H (map (map (take H)) y), pixel_maps B S H (map (map (drop H)) y)))"
  by (simp add: chunk_channels5_def pixel_maps_def spatial_def take_map drop_map comp_def Let_def)

lemma conv_mingru_parallel_pixels:
  assumes x: "shaped3 B S Cin x" and h: "shaped3 B 1 H h" and w: "shaped4 (2 * H) Cin k1 k2 w"
    and k1: "0 < k1" and k2: "0 < k2" and b: "bias_ok (2 * H) b" and H: "0 < H"
  shows "conv_mingru_parallel (pixel_maps B S Cin x) (pixel_maps B 1 H h) w b
         = Some (pixel_maps B S H (par_out x h (centre_weights w) b))"
proof -
  let ?cw = "centre_weights w"
  let ?Y = "map (map (\<lambda>r. linear_row r ?cw b)) x"
  note cw = shaped2_centre_weights [OF w]
  note G = shaped3_gate [OF x cw b] and C = shaped3_candidate [OF x cw b]
  have lcw: "length ?cw = 2 * H" using cw by (simp add: shaped2_def)
  have R: "0 < 2 * H" using H by simp
  have conv: "F_conv2d_same (view4 (B * S) Cin 1 1 (pixel_maps B S Cin x)) w b
              = Some \<lparr>shape = (B * S, 2 * H, 1, 1), entries = concat (spatial ?Y)\<rparr>"
    using F_conv2d_same_pixels [OF w R k1 k2 b, of "B * S" "concat x"]
    by (simp add: view4_def pixel_maps_def concat_spatial map_concat)
  have Y: "shaped3 B S (2 * H) ?Y" by (rule shaped3_linear [OF x cw b])
  have view: "view5 B S (H * 2) 1 1 \<lparr>shape = (B * S, 2 * H, 1, 1), entries = concat (spatial ?Y)\<rparr>
              = Some (pixel_maps B S (2 * H) ?Y)"
    using view5_pixels [OF Y] by (simp add: mult.commute)
  have chunk: "chunk_channels5 (pixel_maps B S (2 * H) ?Y)
               = Some (pixel_maps B S H (gate_logits x ?cw b),
                       pixel_maps B S H (candidate_logits x ?cw b))"
    using H by (simp add: chunk_channels5_pixels gate_logits_def candidate_logits_def lcw comp_def)
  have scan: "parallel_scan_log_spatial (pixel_maps B S H (log_coeffs_of x ?cw b))
                (pixel_maps B (Suc S) H (log_values_of x h ?cw b))
              = Some (pixel_maps B (Suc S) H
                  (map2 scan_batch (log_coeffs_of x ?cw b) (log_values_of x h ?cw b)))"
    by (rule parallel_scan_log_spatial_pixels [OF shaped3_log_coeffs [OF x cw b]
          shaped3_log_values [OF x cw b h]])
  have sh: "shape (pixel_maps B S Cin x) = (B, S, Cin, 1, 1)" "shape2 (pixel_maps B 1 H h) = H"
    by (simp_all add: pixel_maps_def shape2_def)
  show ?thesis
    using scan conv view chunk sh
    by (simp add: conv_mingru_parallel_def Let_def on_entries_pixel_maps
        add5_pixel_maps cat1_pixel_maps log_coeffs_of_def [symmetric]
        log_values_of_def [symmetric] tail1_pixel_maps par_out_def)
qed

lemma squeeze_pixel_maps:
  "squeeze_dim1 (pixel_maps B 1 C (unsqueeze1 t)) = Some \<lparr>shape = (B, C, 1, 1), entries = spatial4 t\<rparr>"
  by (simp add: squeeze_dim1_def pixel_maps_def unsqueeze1_def spatial_def spatial4_def comp_def)

lemma unsqueeze_pixel_maps:
  "unsqueeze_dim1 \<lparr>shape = (B, C, 1, 1), entries = spatial4 t\<rparr> = pixel_maps B 1 C (unsqueeze1 t)"
  by (simp add: unsqueeze_dim1_def pixel_maps_def unsqueeze1_def spatial_def spatial4_def)

lemma on_entries_spatial4:
  "on_entries (map4 f) \<lparr>shape = s, entries = spatial4 t\<rparr>
   = \<lparr>shape = s, entries = spatial4 (map (map f) t)\<rparr>"
  by (simp add: on_entries_def map4_spatial4)

lemma mul4_spatial4:
  "mul4 \<lparr>shape = s, entries = spatial4 a\<rparr> \<lparr>shape = s, entries = spatial4 b\<rparr>
   = Some \<lparr>shape = s, entries = spatial4 (map2 (map2 (*)) a b)\<rparr>"
  by (simp add: mul4_def zip_entries_def map2_spatial4)

lemma add4_spatial4:
  "add4 \<lparr>shape = s, entries = spatial4 a\<rparr> \<lparr>shape = s, entries = spatial4 b\<rparr>
   = Some \<lparr>shape = s, entries = spatial4 (map2 (map2 (+)) a b)\<rparr>"
  by (simp add: add4_def zip_entries_def map2_spatial4)

lemma chunk_channels4_pixels:
  "0 < H \<Longrightarrow>
   chunk_channels4 \<lparr>shape = (B, 2 * H, 1, 1), entries = spatial4 y\<rparr>
   = Some (\<lparr>shape = (B, H, 1, 1), entries = spatial4 (map (take H) y)\<rparr>,
           \<lparr>shape = (B, H, 1, 1), entries = spatial4 (map (drop H) y)\<rparr>)"
  by (simp add: chunk_channels4_def spatial4_def take_map drop_map comp_def Let_def)

lemma conv_mingru_sequential_pixels:
  assumes x: "shaped3 B 1 Cin x" and h: "shaped3 B 1 H h" and w: "shaped4 (2 * H) Cin k1 k2 w"
    and k1: "0 < k1" and k2: "0 < k2" and b: "bias_ok (2 * H) b" and H: "0 < H"
  shows "conv_mingru_sequential (pixel_maps B 1 Cin x) (pixel_maps B 1 H h) w b
         = Some (pixel_maps B 1 H (seq_out x h (centre_weights w) b))"
proof -
  let ?cw = "centre_weights w"
  define X where "X = map hd x"
  define Hp where "Hp = map hd h"
  define Y where "Y = map (\<lambda>r. linear_row r ?cw b) X"
  define Gt where "Gt = map (take H) Y"
  define Cd where "Cd = map (drop H) Y"
  note cw = shaped2_centre_weights [OF w]
  have lcw: "length ?cw = 2 * H" using cw by (simp add: shaped2_def)
  have R: "0 < 2 * H" using H by simp
  have x1: "\<forall>m\<in>set x. length m = 1" and h1: "\<forall>m\<in>set h. length m = 1"
    using x h by (simp_all add: shaped3_def shaped2_def)
  have xu: "x = unsqueeze1 X" and hu: "h = unsqueeze1 Hp"
    using unsqueeze1_hd [OF x1] unsqueeze1_hd [OF h1] by (simp_all add: X_def Hp_def)
  have sq: "squeeze_dim1 (pixel_maps B 1 Cin x) = Some \<lparr>shape = (B, Cin, 1, 1), entries = spatial4 X\<rparr>"
    "squeeze_dim1 (pixel_maps B 1 H h) = Some \<lparr>shape = (B, H, 1, 1), entries = spatial4 Hp\<rparr>"
    unfolding xu hu by (rule squeeze_pixel_maps)+
  have conv: "F_conv2d_same \<lparr>shape = (B, Cin, 1, 1), entries = spatial4 X\<rparr> w b
              = Some \<lparr>shape = (B, 2 * H, 1, 1), entries = spatial4 Y\<rparr>"
    unfolding Y_def by (rule F_conv2d_same_pixels [OF w R k1 k2 b])
  have chunk: "chunk_channels4 \<lparr>shape = (B, 2 * H, 1, 1), entries = spatial4 Y\<rparr>
               = Some (\<lparr>shape = (B, H, 1, 1), entries = spatial4 Gt\<rparr>,
                       \<lparr>shape = (B, H, 1, 1), entries = spatial4 Cd\<rparr>)"
    unfolding Gt_def Cd_def by (rule chunk_channels4_pixels [OF H])
  have out: "seq_out x h ?cw b
             = unsqueeze1 (map2 (map2 (+))
                  (map2 (map2 (*)) (map (map (\<lambda>v. 1 - v)) (map (map sigmoid) Gt)) Hp)
                  (map2 (map2 (*)) (map (map sigmoid) Gt) (map (map g) Cd)))"
    by (simp add: seq_out_def xu hu gate_unsqueeze1 candidate_unsqueeze1 map3_unsqueeze1
        map2_unsqueeze1 lcw Gt_def Cd_def Y_def comp_def)
  have "conv_mingru_sequential (pixel_maps B 1 Cin x) (pixel_maps B 1 H h) w b
        = Some (unsqueeze_dim1 \<lparr>shape = (B, H, 1, 1), entries = spatial4 (map2 (map2 (+))
                  (map2 (map2 (*)) (map (map (\<lambda>v. 1 - v)) (map (map sigmoid) Gt)) Hp)
                  (map2 (map2 (*)) (map (map sigmoid) Gt) (map (map g) Cd)))\<rparr>)"
    by (simp only: conv_mingru_sequential_def sq conv chunk Let_def bind.bind_lunit prod.case
        on_entries_spatial4 mul4_spatial4 add4_spatial4)
  then show ?thesis
    by (simp only: unsqueeze_pixel_maps out)
qed

lemma maps5_eq_pixel_maps:
  assumes "shape x = (B, S, C, 1, 1)" and "shaped5 B S C 1 1 (entries x)"
  shows "x = pixel_maps B S C (channels (entries x))"
  using assms spatial_channels(1) [OF assms(2)] by (simp add: pixel_maps_def)

lemma outputs_empty_batch:
  "seq_out [] h w b = []" "par_out [] h w b = []"
  by (simp_all add: seq_out_def par_out_def log_coeffs_of_def gate_logits_def map3_def)

text \<open>
  C9. For every input whose feature maps are a single pixel, \<open>x\<close> of shape
  \<open>(B, S, Cin, 1, 1)\<close> and \<open>h\<close> of shape \<open>(B, 1, Chid, 1, 1)\<close> with at least one input
  channel and one hidden channel, \<open>conv_mingru\<close> returns the values that \<open>mingru\<close>
  returns on the channel tensors \<open>(B, S, Cin)\<close> and \<open>(B, 1, Chid)\<close>, with the linear
  weights that the kernels apply to the single pixel: the same numbers, as a tensor
  \<open>(B, S, Chid, 1, 1)\<close>.
\<close>

theorem conv_mingru_single_pixel:
  assumes sx: "shape x = (B, S, Cin, 1, 1)" and ex: "shaped5 B S Cin 1 1 (entries x)"
    and sh: "shape h = (B, 1, H, 1, 1)" and eh: "shaped5 B 1 H 1 1 (entries h)"
    and w: "shaped4 (2 * H) Cin k1 k2 w" and k1: "0 < k1" and k2: "0 < k2"
    and b: "bias_ok (2 * H) b" and Cin: "0 < Cin" and H: "0 < H"
  shows "conv_mingru x h w b
         = map_option (pixel_maps B S H)
             (mingru (channels (entries x)) (channels (entries h)) (centre_weights w) b)
       \<and> (\<exists>r. mingru (channels (entries x)) (channels (entries h)) (centre_weights w) b = Some r
               \<and> shaped3 B S H r \<and> conv_mingru x h w b = Some (pixel_maps B S H r))"
proof -
  let ?x = "channels (entries x)" and ?h = "channels (entries h)" and ?cw = "centre_weights w"
  note xs = spatial_channels [OF ex] and hs = spatial_channels [OF eh]
  note cw = shaped2_centre_weights [OF w]
  have xe: "x = pixel_maps B S Cin ?x" by (rule maps5_eq_pixel_maps [OF sx ex])
  have he: "h = pixel_maps B 1 H ?h" by (rule maps5_eq_pixel_maps [OF sh eh])
  let ?r = "if 0 < B \<and> S = 1 then seq_out ?x ?h ?cw b else par_out ?x ?h ?cw b"
  have m: "mingru ?x ?h ?cw b = Some ?r"
    by (rule mingru_shaped [OF xs(2) cw b hs(2)])
  have shr: "shaped3 B S H ?r"
    using shaped3_seq_out [OF xs(2) cw b, of ?h] shaped3_par_out [OF xs(2) cw b hs(2)] hs(2)
    by auto
  have S: "shape1 (pixel_maps B S Cin ?x) = S"
    by (simp add: shape1_def pixel_maps_def)
  have c: "conv_mingru (pixel_maps B S Cin ?x) (pixel_maps B 1 H ?h) w b
           = Some (pixel_maps B S H ?r)"
  proof (cases "S = 1")
    case True
    have "conv_mingru_sequential (pixel_maps B 1 Cin ?x) (pixel_maps B 1 H ?h) w b
          = Some (pixel_maps B 1 H (seq_out ?x ?h ?cw b))"
      using conv_mingru_sequential_pixels [OF _ hs(2) w k1 k2 b H, of ?x] xs(2) True by simp
    moreover have "seq_out ?x ?h ?cw b = par_out ?x ?h ?cw b" if "B = 0"
    proof -
      have "?x = []" using xs(2) that by (simp add: shaped3_def)
      then show ?thesis by (simp add: outputs_empty_batch)
    qed
    ultimately show ?thesis
      using True S by (auto simp: conv_mingru_def)
  next
    case False
    then show ?thesis
      using conv_mingru_parallel_pixels [OF xs(2) hs(2) w k1 k2 b H] S
      by (simp add: conv_mingru_def)
  qed
  have c': "conv_mingru x h w b = Some (pixel_maps B S H ?r)"
    using c xe he by simp
  show ?thesis
    using m shr c' by simp
qed

theorem conv_mingru_single_pixel_witness:
  "shaped4 (2 * 1) 1 3 3 [[[[5, 5, 5], [5, 0, 5], [5, 5, 5]]], [[[7, 7, 7], [7, 1, 7], [7, 7, 7]]]]
   \<and> (0::nat) < 3 \<and> bias_ok (2 * 1) None \<and> (0::nat) < 1
   \<and> shaped5 1 1 1 1 1 [[[[[2]]]]] \<and> shaped5 1 2 1 1 1 [[[[[0]]], [[[0]]]]]
   \<and> shaped5 1 1 1 1 1 [[[[[1]]]]]
   \<and> centre_weights [[[[5, 5, 5], [5, 0, 5], [5, 5, 5]]], [[[7, 7, 7], [7, 1, 7], [7, 7, 7]]]]
       = [[0], [1]]
   \<and> mingru [[[2]]] [[[1]]] [[0], [1]] None = Some [[[7 / 4]]]
   \<and> conv_mingru \<lparr>shape = (1, 1, 1, 1, 1), entries = [[[[[2]]]]]\<rparr>
        \<lparr>shape = (1, 1, 1, 1, 1), entries = [[[[[1]]]]]\<rparr>
        [[[[5, 5, 5], [5, 0, 5], [5, 5, 5]]], [[[7, 7, 7], [7, 1, 7], [7, 7, 7]]]] None
      = Some \<lparr>shape = (1, 1, 1, 1, 1), entries = [[[[[7 / 4]]]]]\<rparr>
   \<and> mingru [[[0], [0]]] [[[1]]] [[0], [1]] None = Some [[[3 / 4], [5 / 8]]]
   \<and> conv_mingru \<lparr>shape = (1, 2, 1, 1, 1), entries = [[[[[0]]], [[[0]]]]]\<rparr>
        \<lparr>shape = (1, 1, 1, 1, 1), entries = [[[[[1]]]]]\<rparr>
        [[[[5, 5, 5], [5, 0, 5], [5, 5, 5]]], [[[7, 7, 7], [7, 1, 7], [7, 7, 7]]]] None
      = Some \<lparr>shape = (1, 2, 1, 1, 1), entries = [[[[[3 / 4]]], [[[5 / 8]]]]]\<rparr>"
proof -
  let ?w = "[[[[5, 5, 5], [5, 0, 5], [5, 5, 5]]], [[[7, 7, 7], [7, 1, 7], [7, 7, 7 :: real]]]]"
  let ?x1 = "\<lparr>shape = (1 :: nat, 1 :: nat, 1 :: nat, 1 :: nat, 1 :: nat), entries = [[[[[2 :: real]]]]]\<rparr>"
  let ?x2 = "\<lparr>shape = (1 :: nat, 2 :: nat, 1 :: nat, 1 :: nat, 1 :: nat),
             entries = [[[[[0 :: real]]], [[[0]]]]]\<rparr>"
  let ?h = "\<lparr>shape = (1 :: nat, 1 :: nat, 1 :: nat, 1 :: nat, 1 :: nat), entries = [[[[[1 :: real]]]]]\<rparr>"
  have hw: "shaped4 (2 * 1) 1 3 3 ?w" "(0::nat) < 3" "(0::nat) < 3" "bias_ok (2 * 1) None"
    "(0::nat) < 1" "(0::nat) < 1"
    by (simp_all add: shaped4_def shaped3_def shaped2_def bias_ok_def)
  have e: "shaped5 1 1 1 1 1 [[[[[2]]]]]" "shaped5 1 2 1 1 1 [[[[[0]]], [[[0]]]]]"
    "shaped5 1 1 1 1 1 [[[[[1]]]]]"
    by (simp_all add: shaped5_def shaped4_def shaped3_def shaped2_def)
  have ch: "channels [[[[[2]]]]] = [[[2]]]" "channels [[[[[1]]]]] = [[[1]]]"
    "channels [[[[[0]]], [[[0]]]]] = [[[0], [0]]]" "centre_weights ?w = [[0], [1]]"
    by (simp_all add: channels_def centre_weights_def)
  have m1: "mingru [[[2]]] [[[1]]] [[0], [1]] None = Some [[[7 / 4]]]"
    by (simp add: mingru_def size1_def mingru_sequential_def eval_defs)
  have hyp: "shaped3 1 2 1 [[[0], [0]]]" "shaped2 (2 * 1) 1 [[0], [1]]"
    "bias_ok (2 * 1) None" "shaped3 1 1 1 [[[1]]]" "positive3 [[[1]]]"
    by (simp_all add: shaped3_def shaped2_def bias_ok_def positive3_def)
  have s: "sequential_steps [[[0], [0]]] [[[1]]] [[0], [1]] None = Some [[[3 / 4], [5 / 8]]]"
    by (simp add: sequential_steps_def size1_def cat_states_def time_slice_def
        mingru_sequential_def eval_defs)
  have m2: "mingru [[[0], [0]]] [[[1]]] [[0], [1]] None = Some [[[3 / 4], [5 / 8]]]"
    using parallel_matches_steps [OF hyp] s by (simp add: mingru_def size1_def)
  have c1: "conv_mingru ?x1 ?h ?w None = Some \<lparr>shape = (1, 1, 1, 1, 1), entries = [[[[[7 / 4]]]]]\<rparr>"
    using conv_mingru_single_pixel [of ?x1 1 1 1 ?h 1 3 3 ?w None] hw e ch m1
    by (simp add: pixel_maps_def spatial_def)
  have c2: "conv_mingru ?x2 ?h ?w None
            = Some \<lparr>shape = (1, 2, 1, 1, 1), entries = [[[[[3 / 4]]], [[[5 / 8]]]]]\<rparr>"
    using conv_mingru_single_pixel [of ?x2 1 2 1 ?h 1 3 3 ?w None] hw e ch m2
    by (simp add: pixel_maps_def spatial_def)
  show ?thesis
    using hw e ch m1 m2 c1 c2 by simp
qed


end
